theory Spec2Isabelle
  imports Complex_Main
begin


section \<open>JavaScript values read by the front end\<close>

text \<open>
  The trees, results and cutting programs are JSON sent by the optimisation service.
  A field of a JSON object is absent (\<open>undefined\<close> when read), \<open>null\<close>, or holds a
  value. Numbers are modelled as reals: the rounding of IEEE doubles and \<open>NaN\<close> are not
  part of this model. Item identifiers are integers (the catalog parses them with
  \<open>parseInt\<close>) or strings (JSON keys).
\<close>

datatype 'a jsfield = Undefined | Null | Val 'a

datatype jsid = IdNum int | IdStr string

text \<open>Truthiness (\<open>if (x)\<close>, \<open>!x\<close>, \<open>x && y\<close>) of an identifier, a string, an object.\<close>

fun truthy_id :: "jsid jsfield \<Rightarrow> bool" where
  "truthy_id (Val (IdNum n)) = (n \<noteq> 0)"
| "truthy_id (Val (IdStr s)) = (s \<noteq> [])"
| "truthy_id Undefined = False"
| "truthy_id Null = False"

fun truthy_str :: "string jsfield \<Rightarrow> bool" where
  "truthy_str (Val s) = (s \<noteq> [])"
| "truthy_str Undefined = False"
| "truthy_str Null = False"

fun truthy_obj :: "'a jsfield \<Rightarrow> bool" where
  "truthy_obj (Val x) = True"
| "truthy_obj Undefined = False"
| "truthy_obj Null = False"

text \<open>\<open>x || d\<close> on a numeric field: the field when it is a non-zero number, else \<open>d\<close>.\<close>

fun num_or :: "real jsfield \<Rightarrow> real \<Rightarrow> real" where
  "num_or (Val v) d = (if v = 0 then d else v)"
| "num_or Undefined d = d"
| "num_or Null d = d"

text \<open>\<open>x !== undefined\<close>: true for \<open>null\<close> as well as for a value.\<close>

fun defined :: "'a jsfield \<Rightarrow> bool" where
  "defined Undefined = False"
| "defined Null = True"
| "defined (Val x) = True"

subsection \<open>\<open>String(n)\<close> for an integer\<close>

text \<open>
  Property keys of a JavaScript object are strings: \<open>obj[1]\<close> and \<open>obj["1"]\<close> are the
  same entry. \<open>js_string\<close> is \<open>String(n)\<close> for an integer \<open>n\<close> (decimal, a leading
  minus sign), as JavaScript prints integers below \<open>10^21\<close> in absolute value.
\<close>

definition digit_char :: "nat \<Rightarrow> char" where
  "digit_char d = ''0123456789'' ! d"

fun digits_of :: "nat \<Rightarrow> string" where
  "digits_of n = (if n < 10 then [digit_char n] else digits_of (n div 10) @ [digit_char (n mod 10)])"

declare digits_of.simps [simp del]

definition js_string :: "int \<Rightarrow> string" where
  "js_string n = (if n < 0 then CHR ''-'' # digits_of (nat (- n)) else digits_of (nat n))"

fun key_of :: "jsid \<Rightarrow> string" where
  "key_of (IdNum n) = js_string n"
| "key_of (IdStr s) = s"

section \<open>Tree nodes in the two schemas\<close>

text \<open>
  One raw node carries the fields of both encodings: the current one (\<open>item_id\<close>,
  \<open>length\<close>, \<open>width\<close>, \<open>height\<close>, \<open>cut_dir\<close>, \<open>cut_pos\<close>, \<open>left_pattern\<close>,
  \<open>right_pattern\<close>) and the legacy one (\<open>kind\<close>, \<open>box\<close>, \<open>axis\<close>, \<open>pos\<close>,
  \<open>children\<close>, with \<open>item_id\<close> shared). \<open>length\<close> is named \<open>length_n\<close> here.
\<close>

datatype node = Node
  (item_id: "jsid jsfield")
  (length_n: "real jsfield")
  (width: "real jsfield")
  (height: "real jsfield")
  (cut_dir: "string jsfield")
  (cut_pos: "real jsfield")
  (left_pattern: "node jsfield")
  (right_pattern: "node jsfield")
  (kind: "string jsfield")
  (box: "(real \<times> real \<times> real) jsfield")
  (axis: "string jsfield")
  (pos: "real jsfield")
  (children: "node list jsfield")

section \<open>Colour assignment\<close>

text \<open>
  \<open>getItemColor\<close> of app.js. The colour is kept as the three numerators handed to
  \<open>setHSL\<close>: hue over 360, saturation over 100, lightness over 100; the conversion to
  RGB is floating point and is not modelled. \<open>hash << 5\<close> is a 32-bit shift
  (\<open>to_int32\<close>), the subtraction and the addition around it are not wrapped.
  When the function is handed a number, \<open>itemId.length\<close> is \<open>undefined\<close>, the loop
  does not run and the hash is 0.
\<close>

datatype color = HSL int int int

definition hues :: "int list" where
  "hues = [0, 30, 60, 120, 180, 210, 240, 270, 300, 330]"

definition to_int32 :: "int \<Rightarrow> int" where
  "to_int32 x = (x + 2 ^ 31) mod 2 ^ 32 - 2 ^ 31"

definition hash_step :: "int \<Rightarrow> char \<Rightarrow> int" where
  "hash_step hash c = of_char c + (to_int32 (hash * 32) - hash)"

definition hash_string :: "string \<Rightarrow> int" where
  "hash_string s = foldl hash_step 0 s"

definition color_of_hash :: "int \<Rightarrow> nat \<Rightarrow> color" where
  "color_of_hash hash itemIndex =
     (let hue = hues ! (itemIndex mod length hues);
          hueOffset = (\<bar>hash\<bar> mod 20) - 10;
          saturation = 75 + (\<bar>hash\<bar> mod 20);
          lightness = 50 + (\<bar>hash\<bar> mod 15)
      in HSL (hue + hueOffset) saturation lightness)"

fun getItemColor :: "jsid \<Rightarrow> nat \<Rightarrow> color" where
  "getItemColor (IdStr s) itemIndex = color_of_hash (hash_string s) itemIndex"
| "getItemColor (IdNum n) itemIndex = color_of_hash 0 itemIndex"

text \<open>\<open>getItemColorHex\<close> of the mode-switching script: it hashes \<open>String(itemId)\<close>.\<close>

definition getItemColorHex :: "jsid \<Rightarrow> nat \<Rightarrow> color" where
  "getItemColorHex itemId itemIndex = color_of_hash (hash_string (key_of itemId)) itemIndex"

section \<open>Geometry reconstruction\<close>

text \<open>
  \<open>addBox\<close> adds a mesh to the scene; the model keeps, per call that adds one, its
  arguments: origin, dimensions, colour and item id. The scene is taken as initialised
  (\<open>init3D\<close> has run), so the first guard of \<open>addBox\<close> does not fire; the material,
  the edge lines and the opacity are left out.
\<close>

record placed =
  px :: real
  py :: real
  pz :: real
  pl :: real
  pw :: real
  ph :: real
  pcolor :: color
  pid :: jsid

record draw_state =
  meshes :: "placed list"
  itemColorMap :: "(string \<times> color) list"
  itemIndexMap :: "(string \<times> nat) list"

definition addBox :: "real \<Rightarrow> real \<Rightarrow> real \<Rightarrow> real \<Rightarrow> real \<Rightarrow> real \<Rightarrow> color \<Rightarrow> jsid
    \<Rightarrow> draw_state \<Rightarrow> draw_state" where
  "addBox x y z L W H c i st =
     (if L \<le> 0 \<or> W \<le> 0 \<or> H \<le> 0 then st
      else st\<lparr>meshes := meshes st @
        [\<lparr>px = x, py = y, pz = z, pl = L, pw = W, ph = H, pcolor = c, pid = i\<rparr>]\<rparr>)"

text \<open>
  The colour of a leaf: the one already in \<open>itemColorMap\<close>, or a new one whose index is
  the number of keys the map holds. \<open>map_set\<close> is the assignment \<open>m[k] = v\<close>.
\<close>

definition map_set :: "string \<Rightarrow> 'v \<Rightarrow> (string \<times> 'v) list \<Rightarrow> (string \<times> 'v) list" where
  "map_set k v m = (if k \<in> fst ` set m then map (\<lambda>(k', v'). if k' = k then (k', v) else (k', v')) m
                    else m @ [(k, v)])"

definition leaf_color :: "jsid \<Rightarrow> draw_state \<Rightarrow> color \<times> draw_state" where
  "leaf_color i st =
     (case map_of (itemColorMap st) (key_of i) of
        Some c \<Rightarrow> (c, st)
      | None \<Rightarrow>
          (let idx = length (itemColorMap st);
               c = getItemColor i idx
           in (c, st\<lparr>itemIndexMap := map_set (key_of i) idx (itemIndexMap st),
                     itemColorMap := map_set (key_of i) c (itemColorMap st)\<rparr>)))"

definition draw_leaf :: "jsid \<Rightarrow> real \<times> real \<times> real \<Rightarrow> real \<Rightarrow> real \<Rightarrow> real
    \<Rightarrow> draw_state \<Rightarrow> draw_state" where
  "draw_leaf i origin L W H st =
     (case leaf_color i st of (c, st') \<Rightarrow>
        (case origin of (x, y, z) \<Rightarrow> addBox x y z L W H c i st'))"

text \<open>The right subtree's origin of \<open>drawTreeNew\<close>: \<open>V\<close> moves x, \<open>D\<close> y, \<open>H\<close> z.\<close>

definition newOrigin :: "string \<Rightarrow> real \<Rightarrow> real \<Rightarrow> real \<times> real \<times> real \<Rightarrow> real \<times> real \<times> real" where
  "newOrigin cutDir p kerf origin =
     (case origin of (x, y, z) \<Rightarrow>
        if cutDir = ''V'' then (x + p + kerf, y, z)
        else if cutDir = ''D'' then (x, y + p + kerf, z)
        else if cutDir = ''H'' then (x, y, z + p + kerf)
        else (x, y, z))"

text \<open>The id of a node whose \<open>item_id\<close> was found truthy.\<close>

fun the_id :: "jsid jsfield \<Rightarrow> jsid" where
  "the_id (Val i) = i"
| "the_id Undefined = IdStr []"
| "the_id Null = IdStr []"

fun drawTreeNew :: "node \<Rightarrow> real \<times> real \<times> real \<Rightarrow> real \<Rightarrow> real \<times> real \<times> real
    \<Rightarrow> draw_state \<Rightarrow> draw_state" where
  "drawTreeNew (Node iid len wid hei cdir cpos lp rp knd bx ax ps ch) blockDims kerf origin st =
     (case blockDims of (bL, bW, bH) \<Rightarrow>
        if truthy_id iid \<and> \<not> truthy_str cdir then
          draw_leaf (the_id iid) origin (num_or len bL) (num_or wid bW) (num_or hei bH) st
        else if truthy_str cdir \<and> (truthy_obj lp \<or> truthy_obj rp) then
          (let st1 = (case lp of Val l \<Rightarrow> drawTreeNew l blockDims kerf origin st | _ \<Rightarrow> st)
           in (case rp of
                 Val r \<Rightarrow> drawTreeNew r blockDims kerf
                            (newOrigin (case cdir of Val d \<Rightarrow> d | _ \<Rightarrow> []) (num_or cpos 0) kerf origin) st1
               | _ \<Rightarrow> st1))
        else st)"

text \<open>
  \<open>drawTree\<close>, kept for the legacy schema: a node with \<open>length\<close> or \<open>cut_dir\<close> defined
  goes to \<open>drawTreeNew\<close>; otherwise \<open>H\<close> moves x, \<open>V\<close> y, \<open>D\<close> z.
\<close>

fun drawTree :: "node \<Rightarrow> real \<times> real \<times> real \<Rightarrow> real \<Rightarrow> real \<times> real \<times> real
    \<Rightarrow> draw_state \<Rightarrow> draw_state" where
  "drawTree (Node iid len wid hei cdir cpos lp rp knd bx ax ps ch) blockDims kerf origin st =
     (if defined len \<or> defined cdir then
        drawTreeNew (Node iid len wid hei cdir cpos lp rp knd bx ax ps ch) blockDims kerf origin st
      else
        (case (case bx of Val b \<Rightarrow> b | _ \<Rightarrow> blockDims) of (L, W, H) \<Rightarrow>
           if knd = Val ''leaf'' \<and> truthy_id iid then
             draw_leaf (the_id iid) origin L W H st
           else
             (case (knd = Val ''cut'', ch) of
                (True, Val (c0 # c1 # rest)) \<Rightarrow>
                  (case origin of (x, y, z) \<Rightarrow>
                     let p = num_or ps 0 in
                     if ax = Val ''H'' then
                       drawTree c1 blockDims kerf (x + p + kerf, y, z) (drawTree c0 blockDims kerf origin st)
                     else if ax = Val ''V'' then
                       drawTree c1 blockDims kerf (x, y + p + kerf, z) (drawTree c0 blockDims kerf origin st)
                     else if ax = Val ''D'' then
                       drawTree c1 blockDims kerf (x, y, z + p + kerf) (drawTree c0 blockDims kerf origin st)
                     else st)
              | _ \<Rightarrow> st)))"

section \<open>Statistics\<close>

text \<open>
  \<open>stats.items\<close> is an object keyed by the item id, hence by its string form. The two
  percentages are assigned after the traversal; until then they are held at 0 here.
\<close>

record item_stat =
  stat_id :: jsid
  stat_count :: int
  stat_volume :: real

record stats =
  items :: "string \<rightharpoonup> item_stat"
  totalFilled :: real
  totalWaste :: real
  totalVolume :: real
  fillPercent :: real
  wastePercent :: real

text \<open>The body shared by the two leaf branches of \<open>countItems\<close>.\<close>

definition add_leaf :: "jsid \<Rightarrow> real \<Rightarrow> stats \<Rightarrow> stats" where
  "add_leaf i v st =
     (let k = key_of i;
          e = (case items st k of
                 None \<Rightarrow> \<lparr>stat_id = i, stat_count = 0, stat_volume = 0\<rparr>
               | Some e \<Rightarrow> e)
      in st\<lparr>items := (items st)(k \<mapsto> e\<lparr>stat_count := stat_count e + 1,
                                          stat_volume := stat_volume e + v\<rparr>),
            totalFilled := totalFilled st + v\<rparr>)"

text \<open>
  The node's own contribution in \<open>countItems\<close>: the branch of the current schema, then
  the branch of the legacy schema (two separate \<open>if\<close> statements).
\<close>

definition count_new :: "node \<Rightarrow> stats \<Rightarrow> stats" where
  "count_new n st =
     (if truthy_id (item_id n) \<and> \<not> truthy_str (cut_dir n) then
        add_leaf (the_id (item_id n))
          (num_or (length_n n) 0 * num_or (width n) 0 * num_or (height n) 0) st
      else st)"

definition count_old :: "node \<Rightarrow> stats \<Rightarrow> stats" where
  "count_old n st =
     (if kind n = Val ''leaf'' \<and> truthy_id (item_id n) then
        (case (case box n of Val b \<Rightarrow> b | _ \<Rightarrow> (0, 0, 0)) of (L, W, H) \<Rightarrow>
           add_leaf (the_id (item_id n)) (L * W * H) st)
      else st)"

fun countItems :: "node \<Rightarrow> stats \<Rightarrow> stats" where
  "countItems (Node iid len wid hei cdir cpos lp rp knd bx ax ps ch) st =
     (let n = Node iid len wid hei cdir cpos lp rp knd bx ax ps ch;
          st1 = count_old n (count_new n st);
          st2 = (case lp of Val l \<Rightarrow> countItems l st1 | _ \<Rightarrow> st1);
          st3 = (case rp of Val r \<Rightarrow> countItems r st2 | _ \<Rightarrow> st2)
      in (case ch of Val cs \<Rightarrow> fold countItems cs st3 | _ \<Rightarrow> st3))"

text \<open>
  \<open>calculateStatisticsNew(tree, items, blockDims)\<close>; the catalog \<open>items\<close> is not
  read by the function and is left out.
\<close>

definition calculateStatisticsNew :: "node jsfield \<Rightarrow> real \<times> real \<times> real \<Rightarrow> stats" where
  "calculateStatisticsNew tree blockDims =
     (case blockDims of (bL, bW, bH) \<Rightarrow>
        let s0 = \<lparr>items = Map.empty, totalFilled = 0, totalWaste = 0,
                  totalVolume = bL * bW * bH, fillPercent = 0, wastePercent = 0\<rparr>;
            st1 = (case tree of Val t \<Rightarrow> countItems t s0 | _ \<Rightarrow> s0);
            st2 = st1\<lparr>totalWaste := totalVolume st1 - totalFilled st1\<rparr>;
            st3 = st2\<lparr>fillPercent := (if totalVolume st2 > 0
                                        then totalFilled st2 / totalVolume st2 * 100 else 0)\<rparr>
        in st3\<lparr>wastePercent := (if totalVolume st3 > 0
                                  then totalWaste st3 / totalVolume st3 * 100 else 0)\<rparr>)"

section \<open>The canonical tree and its two encodings\<close>

text \<open>
  Modelled from the spec: the canonical \<open>CutNode\<close> and the Schema Normalizer are not in
  the source, which reads both encodings at every traversal. \<open>cutnode\<close> is the spec's
  canonical tree (the kerf is the argument of the reconstruction, not a field), and
  \<open>to_current\<close> and \<open>to_legacy\<close> write it with the field names of the two schemas.
  \<open>axis_offset\<close> is the spec's axis-to-dimension mapping: \<open>V\<close> to x, \<open>D\<close> to y,
  \<open>H\<close> to z.
\<close>

datatype axis3 = AxH | AxV | AxD

fun axis_name :: "axis3 \<Rightarrow> string" where
  "axis_name AxH = ''H''"
| "axis_name AxV = ''V''"
| "axis_name AxD = ''D''"

datatype cutnode = Leaf jsid real real real | Cut axis3 real cutnode cutnode

fun axis_offset :: "axis3 \<Rightarrow> real \<Rightarrow> real \<times> real \<times> real \<Rightarrow> real \<times> real \<times> real" where
  "axis_offset AxV d (x, y, z) = (x + d, y, z)"
| "axis_offset AxD d (x, y, z) = (x, y + d, z)"
| "axis_offset AxH d (x, y, z) = (x, y, z + d)"

fun to_current :: "cutnode \<Rightarrow> node" where
  "to_current (Leaf i l w h) =
     Node (Val i) (Val l) (Val w) (Val h) Undefined Undefined Undefined Undefined
          Undefined Undefined Undefined Undefined Undefined"
| "to_current (Cut a p lt rt) =
     Node Undefined Undefined Undefined Undefined (Val (axis_name a)) (Val p)
          (Val (to_current lt)) (Val (to_current rt))
          Undefined Undefined Undefined Undefined Undefined"

fun to_legacy :: "cutnode \<Rightarrow> node" where
  "to_legacy (Leaf i l w h) =
     Node (Val i) Undefined Undefined Undefined Undefined Undefined Undefined Undefined
          (Val ''leaf'') (Val (l, w, h)) Undefined Undefined Undefined"
| "to_legacy (Cut a p lt rt) =
     Node Undefined Undefined Undefined Undefined Undefined Undefined Undefined Undefined
          (Val ''cut'') Undefined (Val (axis_name a)) (Val p)
          (Val [to_legacy lt, to_legacy rt])"

text \<open>
  The letters as \<open>drawTree\<close> reads them in a legacy tree: its \<open>H\<close> is the cut along
  x, its \<open>V\<close> along y, its \<open>D\<close> along z.
\<close>

fun legacy_axis :: "axis3 \<Rightarrow> axis3" where
  "legacy_axis AxH = AxV"
| "legacy_axis AxV = AxD"
| "legacy_axis AxD = AxH"

text \<open>The scene and the colour maps before anything is drawn.\<close>

definition st0 :: draw_state where
  "st0 = \<lparr>meshes = [], itemColorMap = [], itemIndexMap = []\<rparr>"

section \<open>Statistics from the producer's result\<close>

text \<open>
  The run handler of app_patch.js, which replaces the one of app.js. The catalog is
  parsed from the text area (\<open>parseInt\<close> for the id; a line that does not parse is
  outside this model). \<open>item_counts\<close> is a JSON object: the list of its (key, count)
  pairs, the keys pairwise distinct strings.
\<close>

record item =
  it_id :: int
  it_l :: real
  it_w :: real
  it_h :: real
  it_qty :: int

record placed_item =
  pi_item_id :: jsid
  pi_x :: real
  pi_y :: real
  pi_z :: real
  pi_l :: real
  pi_w :: real
  pi_h :: real

record api_result =
  items_placed :: "placed_item list jsfield"
  filled_volume :: "real jsfield"
  utilization :: "real jsfield"
  item_counts :: "(string \<times> int) list jsfield"

text \<open>
  \<open>it.id == itemId\<close> compares a number with a key: the key is converted to a number.
  \<open>js_to_number\<close> is that conversion for the keys that are written as an integer
  (surrounding white space, an optional sign, decimal digits; the empty string is 0).
  A key written any other way (a fraction, an exponent, a radix prefix) is taken as equal
  to no id.
\<close>

definition is_space :: "char \<Rightarrow> bool" where
  "is_space c = (c \<in> set [CHR '' '', CHR 0x09, CHR 0x0A, CHR 0x0B, CHR 0x0C, CHR 0x0D])"

definition trim :: "string \<Rightarrow> string" where
  "trim s = rev (dropWhile is_space (rev (dropWhile is_space s)))"

definition is_digit :: "char \<Rightarrow> bool" where
  "is_digit c = (c \<in> set ''0123456789'')"

definition digit_val :: "char \<Rightarrow> nat" where
  "digit_val c = of_char c - 48"

definition parse_digits :: "string \<Rightarrow> nat option" where
  "parse_digits s = (if s \<noteq> [] \<and> list_all is_digit s
                     then Some (foldl (\<lambda>a c. 10 * a + digit_val c) 0 s) else None)"

definition js_to_number :: "string \<Rightarrow> int option" where
  "js_to_number s =
     (case trim s of
        [] \<Rightarrow> Some 0
      | c # cs \<Rightarrow>
          if c = CHR ''-'' then map_option (\<lambda>n. - int n) (parse_digits cs)
          else if c = CHR ''+'' then map_option int (parse_digits cs)
          else map_option int (parse_digits (c # cs)))"

definition loose_eq :: "int \<Rightarrow> string \<Rightarrow> bool" where
  "loose_eq n key = (js_to_number key = Some n)"

definition item_entry :: "item list \<Rightarrow> string \<Rightarrow> int \<Rightarrow> item_stat" where
  "item_entry its itemId c =
     (let itemData = find (\<lambda>it. loose_eq (it_id it) itemId) its;
          volume = (case itemData of Some it \<Rightarrow> it_l it * it_w it * it_h it | None \<Rightarrow> 0)
      in \<lparr>stat_id = IdStr itemId, stat_count = c, stat_volume = volume * of_int c\<rparr>)"

definition set_entry :: "item list \<Rightarrow> string \<times> int \<Rightarrow> (string \<rightharpoonup> item_stat)
    \<Rightarrow> (string \<rightharpoonup> item_stat)" where
  "set_entry its kc m = (case kc of (itemId, c) \<Rightarrow> m(itemId \<mapsto> item_entry its itemId c))"

definition patch_stats :: "api_result \<Rightarrow> item list \<Rightarrow> real \<Rightarrow> real \<Rightarrow> real \<Rightarrow> stats" where
  "patch_stats result its blockL blockW blockH =
     (let tv = blockL * blockW * blockH;
          tf = num_or (filled_volume result) 0
      in \<lparr>items = (case item_counts result of
                      Val cs \<Rightarrow> fold (set_entry its) cs Map.empty
                    | _ \<Rightarrow> Map.empty),
          totalFilled = tf,
          totalWaste = tv - tf,
          totalVolume = tv,
          fillPercent = num_or (utilization result) 0,
          wastePercent = 100 - num_or (utilization result) 0\<rparr>)"

section \<open>Colours in the two views\<close>

text \<open>
  The 3D view of the run handler draws \<open>items_placed\<close>: an item seen for the first time
  gets the colour \<open>getItemColor(String(itemId), index)\<close>, the index being the number of
  items coloured so far. The table of \<open>updateStatsTable\<close> colours the rows with
  \<open>getItemColorHex(item.id, index)\<close>, the index being the row's position in the
  catalog; only the id, the colour and the count of a row are modelled.
\<close>

definition placed_color :: "jsid \<Rightarrow> draw_state \<Rightarrow> color \<times> draw_state" where
  "placed_color i st =
     (case map_of (itemColorMap st) (key_of i) of
        Some c \<Rightarrow> (c, st)
      | None \<Rightarrow>
          (let idx = length (itemColorMap st);
               c = getItemColor (IdStr (key_of i)) idx
           in (c, st\<lparr>itemIndexMap := map_set (key_of i) idx (itemIndexMap st),
                     itemColorMap := map_set (key_of i) c (itemColorMap st)\<rparr>)))"

definition render_placed :: "placed_item \<Rightarrow> draw_state \<Rightarrow> draw_state" where
  "render_placed p st =
     (case placed_color (pi_item_id p) st of (c, st') \<Rightarrow>
        addBox (pi_x p) (pi_y p) (pi_z p) (pi_l p) (pi_w p) (pi_h p) c
               (IdStr (key_of (pi_item_id p))) st')"

definition render_items :: "api_result \<Rightarrow> draw_state \<Rightarrow> draw_state" where
  "render_items result st =
     (case items_placed result of
        Val ps \<Rightarrow> if length ps > 0 then fold render_placed ps st else st
      | _ \<Rightarrow> st)"

record table_row =
  row_id :: int
  row_color :: color
  row_count :: int

definition updateStatsTable :: "item list \<Rightarrow> stats \<Rightarrow> table_row list" where
  "updateStatsTable its st =
     map (\<lambda>(index, it).
            \<lparr>row_id = it_id it,
             row_color = getItemColorHex (IdNum (it_id it)) index,
             row_count = (case items st (key_of (IdNum (it_id it))) of
                            Some e \<Rightarrow> stat_count e | None \<Rightarrow> 0)\<rparr>)
         (enumerate 0 its)"

section \<open>The cutting program report\<close>

text \<open>
  \<open>buildCuttingTreeHTML\<close> concatenates fixed markup with values taken from the
  cutting program. The model keeps the values in the order in which they are written
  (the three totals, the conflict banner, one row per step) and leaves the markup out;
  the icons and the dash of a missing volume, which are not ASCII, are constructors.
  An empty string, returned when there is no program or no sequence, is \<open>None\<close>.
  A step may carry a \<open>node\<close> with the optional \<open>depth\<close> and \<open>volume\<close>; reading
  \<open>node.depth\<close> of a step without node throws a \<open>TypeError\<close>, and
  \<open>'  '.repeat\<close> of a negative depth throws a \<open>RangeError\<close>. An exception leaves
  the function at once, with no report.
\<close>

datatype js_error = TypeError | RangeError

record step_node =
  sn_depth :: "int jsfield"
  sn_volume :: "real jsfield"

record step =
  st_seq :: int
  st_operation :: string
  st_description :: string
  st_node :: "step_node jsfield"

record conflict =
  cf_description :: string

record cutting_tree =
  sequence :: "step list jsfield"
  conflicts :: "conflict list jsfield"
  total_nodes :: "int jsfield"
  total_cuts :: "int jsfield"
  total_items :: "int jsfield"

datatype icon = NoIcon | PackageIcon | ScissorsIcon | RulerIcon | CheckIcon

datatype volume_cell = Dash | Fixed string

datatype banner = Conflicts nat "string list" | NoConflicts

record row =
  r_bg :: string
  r_color :: string
  r_icon :: icon
  r_seq :: int
  r_operation :: string
  r_description :: string
  r_volume :: volume_cell

record report =
  rp_total_nodes :: int
  rp_total_cuts :: int
  rp_total_items :: int
  rp_banner :: banner
  rp_rows :: "row list"

text \<open>\<open>x.toFixed(0)\<close>: the nearest integer, a tie away from zero, the sign kept.\<close>

definition toFixed0 :: "real \<Rightarrow> string" where
  "toFixed0 v = (if v < 0 then CHR ''-'' # digits_of (nat \<lfloor>- v + 1 / 2\<rfloor>)
                 else digits_of (nat \<lfloor>v + 1 / 2\<rfloor>))"

fun int_or :: "int jsfield \<Rightarrow> int \<Rightarrow> int" where
  "int_or (Val v) d = (if v = 0 then d else v)"
| "int_or Undefined d = d"
| "int_or Null d = d"

definition operation_style :: "string \<Rightarrow> string \<times> icon" where
  "operation_style op =
     (if op = ''START'' then (''#2196F3'', PackageIcon)
      else if op = ''CUT'' then (''#ff5722'', ScissorsIcon)
      else if op = ''SUB-BLOCK'' then (''#9c27b0'', RulerIcon)
      else if op = ''ITEM'' then (''#4caf50'', CheckIcon)
      else (''#000'', NoIcon))"

text \<open>The body of the \<open>forEach\<close> callback, for the step at position \<open>index\<close>.\<close>

definition render_row :: "nat \<Rightarrow> step \<Rightarrow> js_error + row" where
  "render_row index s =
     (let bgColor = (if index mod 2 = 0 then ''#ffffff'' else ''#f9f9f9'')
      in case st_node s of
           Val node \<Rightarrow>
             (let depth = int_or (sn_depth node) 0
              in if depth < 0 then Inl RangeError
                 else
                   (let indent = concat (replicate (nat depth) ''  '');
                        volume = (case sn_volume node of
                                    Val v \<Rightarrow> if v = 0 then Dash else Fixed (toFixed0 v)
                                  | _ \<Rightarrow> Dash)
                    in Inr \<lparr>r_bg = bgColor,
                            r_color = fst (operation_style (st_operation s)),
                            r_icon = snd (operation_style (st_operation s)),
                            r_seq = st_seq s,
                            r_operation = st_operation s,
                            r_description = indent @ st_description s,
                            r_volume = volume\<rparr>))
         | _ \<Rightarrow> Inl TypeError)"

text \<open>The \<open>forEach\<close> over the sequence: the rows in order, up to the first exception.\<close>

fun render_rows :: "nat \<Rightarrow> step list \<Rightarrow> js_error + row list" where
  "render_rows index [] = Inr []"
| "render_rows index (s # ss) =
     (case render_row index s of
        Inl e \<Rightarrow> Inl e
      | Inr r \<Rightarrow>
          (case render_rows (Suc index) ss of
             Inl e \<Rightarrow> Inl e
           | Inr rs \<Rightarrow> Inr (r # rs)))"

definition conflict_banner :: "conflict list jsfield \<Rightarrow> banner" where
  "conflict_banner cf =
     (case cf of
        Val cs \<Rightarrow> if length cs > 0 then Conflicts (length cs) (map cf_description cs)
                  else NoConflicts
      | _ \<Rightarrow> NoConflicts)"

definition buildCuttingTreeHTML :: "cutting_tree jsfield \<Rightarrow> js_error + report option" where
  "buildCuttingTreeHTML cuttingTree =
     (case cuttingTree of
        Val t \<Rightarrow>
          (case sequence t of
             Val steps \<Rightarrow>
               (case render_rows 0 steps of
                  Inl e \<Rightarrow> Inl e
                | Inr rows \<Rightarrow>
                    Inr (Some \<lparr>rp_total_nodes = int_or (total_nodes t) 0,
                               rp_total_cuts = int_or (total_cuts t) 0,
                               rp_total_items = int_or (total_items t) 0,
                               rp_banner = conflict_banner (conflicts t),
                               rp_rows = rows\<rparr>))
           | _ \<Rightarrow> Inr None)
      | _ \<Rightarrow> Inr None)"

text \<open>
  The steps on which the callback does not throw, and the indentation it writes before
  the description of such a step.
\<close>

definition step_ok :: "step \<Rightarrow> bool" where
  "step_ok s = (case st_node s of Val node \<Rightarrow> 0 \<le> int_or (sn_depth node) 0 | _ \<Rightarrow> False)"

definition step_indent :: "step \<Rightarrow> string" where
  "step_indent s =
     (case st_node s of
        Val node \<Rightarrow> concat (replicate (nat (int_or (sn_depth node) 0)) ''  '')
      | _ \<Rightarrow> [])"

section \<open>Volumes and leaves of a canonical tree\<close>

text \<open>
  The origin and the volume of a drawn box, the leaves of a canonical tree that carry a
  truthy item id (with their volume, left to right), and the trees whose leaves all
  have positive length, width and height.
\<close>

definition origin_of :: "placed \<Rightarrow> real \<times> real \<times> real" where
  "origin_of m = (px m, py m, pz m)"

text \<open>\<open>move a d\<close> shifts a box by \<open>d\<close> along the dimension of the axis \<open>a\<close>.\<close>

fun move :: "axis3 \<Rightarrow> real \<Rightarrow> placed \<Rightarrow> placed" where
  "move AxV d m = m\<lparr>px := px m + d\<rparr>"
| "move AxD d m = m\<lparr>py := py m + d\<rparr>"
| "move AxH d m = m\<lparr>pz := pz m + d\<rparr>"

definition volume_of :: "placed \<Rightarrow> real" where
  "volume_of m = pl m * pw m * ph m"

fun leaves :: "cutnode \<Rightarrow> (jsid \<times> real) list" where
  "leaves (Leaf i l w h) = (if truthy_id (Val i) then [(i, l * w * h)] else [])"
| "leaves (Cut a p lt rt) = leaves lt @ leaves rt"

fun positive_leaves :: "cutnode \<Rightarrow> bool" where
  "positive_leaves (Leaf i l w h) = (0 < l \<and> 0 < w \<and> 0 < h)"
| "positive_leaves (Cut a p lt rt) = (positive_leaves lt \<and> positive_leaves rt)"

text \<open>
  A placement is what the spec calls a \<open>PlacedItem\<close>: item id, origin, dimensions.
  \<open>placement_of\<close> reads it off a drawn box, and \<open>new_meshes st st'\<close> are the boxes
  that \<open>st'\<close> has after those of \<open>st\<close>.
\<close>

type_synonym placement = "jsid \<times> (real \<times> real \<times> real) \<times> (real \<times> real \<times> real)"

definition placement_of :: "placed \<Rightarrow> placement" where
  "placement_of m = (pid m, origin_of m, (pl m, pw m, ph m))"

definition new_meshes :: "draw_state \<Rightarrow> draw_state \<Rightarrow> placed list" where
  "new_meshes st st' = drop (length (meshes st)) (meshes st')"

text \<open>
  Modelled from the spec: \<open>reconstruct(canonicalRoot, kerf)\<close> of the Geometry
  Reconstructor, which the source has only as the two drawing functions. A leaf gives
  one placement at the current origin with its own dimensions, none when a dimension is
  at most 0; a cut gives the placements of its left subtree at the current origin, then
  those of its right subtree at the origin moved by position plus kerf along the axis's
  dimension.
\<close>

fun reconstruct :: "real \<Rightarrow> cutnode \<Rightarrow> real \<times> real \<times> real \<Rightarrow> placement list" where
  "reconstruct kerf (Leaf i l w h) origin =
     (if l \<le> 0 \<or> w \<le> 0 \<or> h \<le> 0 then [] else [(i, origin, (l, w, h))])"
| "reconstruct kerf (Cut a p lt rt) origin =
     reconstruct kerf lt origin @ reconstruct kerf rt (axis_offset a (p + kerf) origin)"

text \<open>The trees whose leaves all carry a truthy item id.\<close>

fun truthy_ids :: "cutnode \<Rightarrow> bool" where
  "truthy_ids (Leaf i l w h) = truthy_id (Val i)"
| "truthy_ids (Cut a p lt rt) = (truthy_ids lt \<and> truthy_ids rt)"

text \<open>
  \<open>legacy_letter a\<close> is the letter under which \<open>drawTree\<close> cuts along the
  dimension that \<open>a\<close> names in the current schema; \<open>relabel\<close> rewrites the axes of
  a tree. \<open>nonzero_leaves\<close> holds of the trees without a zero dimension in a leaf.
\<close>

fun legacy_letter :: "axis3 \<Rightarrow> axis3" where
  "legacy_letter AxV = AxH"
| "legacy_letter AxD = AxV"
| "legacy_letter AxH = AxD"

fun relabel :: "(axis3 \<Rightarrow> axis3) \<Rightarrow> cutnode \<Rightarrow> cutnode" where
  "relabel f (Leaf i l w h) = Leaf i l w h"
| "relabel f (Cut a p lt rt) = Cut (f a) p (relabel f lt) (relabel f rt)"

fun nonzero_leaves :: "cutnode \<Rightarrow> bool" where
  "nonzero_leaves (Leaf i l w h) = (l \<noteq> 0 \<and> w \<noteq> 0 \<and> h \<noteq> 0)"
| "nonzero_leaves (Cut a p lt rt) = (nonzero_leaves lt \<and> nonzero_leaves rt)"

section \<open>Example inputs\<close>

text \<open>
  A cut at position 10 with two 5 x 5 x 5 leaves, items 1 and 2; the same cut with a
  second cut at position 20 as its right subtree (\<open>nested_cut\<close>); and a node whose
  \<open>item_id\<close> is the number 0. \<open>s0\<close> is the statistics object before the traversal of
  a 10 x 10 x 10 block.
\<close>

definition nested_cut :: cutnode where
  "nested_cut = Cut AxV 10 (Leaf (IdNum 1) 5 5 5)
                  (Cut AxV 20 (Leaf (IdNum 2) 5 5 5) (Leaf (IdNum 3) 5 5 5))"

definition two_leaves :: "axis3 \<Rightarrow> cutnode" where
  "two_leaves a = Cut a 10 (Leaf (IdNum 1) 5 5 5) (Leaf (IdNum 2) 5 5 5)"

definition zero_id_node :: node where
  "zero_id_node = Node (Val (IdNum 0)) (Val 4) (Val 5) (Val 6) Undefined Undefined Undefined
     Undefined Undefined Undefined Undefined Undefined Undefined"

definition s0 :: stats where
  "s0 = \<lparr>items = Map.empty, totalFilled = 0, totalWaste = 0, totalVolume = 1000,
          fillPercent = 0, wastePercent = 0\<rparr>"

text \<open>
  The end-to-end example: one catalog item 100 x 50 x 30, twice, in a 200 x 100 x 60
  block with kerf 2, as a tree and as the producer's result. \<open>empty_result\<close> is the
  response \<open>{}\<close>.
\<close>

definition ex_tree :: cutnode where
  "ex_tree = Cut AxV 100 (Leaf (IdNum 1) 100 50 30) (Leaf (IdNum 1) 100 50 30)"

definition ex_items :: "item list" where
  "ex_items = [\<lparr>it_id = 1, it_l = 100, it_w = 50, it_h = 30, it_qty = 2\<rparr>]"

definition ex_result :: api_result where
  "ex_result =
     \<lparr>items_placed = Val
        [\<lparr>pi_item_id = IdNum 1, pi_x = 0, pi_y = 0, pi_z = 0, pi_l = 100, pi_w = 50, pi_h = 30\<rparr>,
         \<lparr>pi_item_id = IdNum 1, pi_x = 102, pi_y = 0, pi_z = 0, pi_l = 100, pi_w = 50, pi_h = 30\<rparr>],
      filled_volume = Val 300000,
      utilization = Val 25,
      item_counts = Val [(''1'', 2)]\<rparr>"

definition empty_result :: api_result where
  "empty_result = \<lparr>items_placed = Undefined, filled_volume = Undefined,
                    utilization = Undefined, item_counts = Undefined\<rparr>"

text \<open>
  A catalog of two items, 1 and 2, and a result that places item 2 before item 1.
\<close>

definition two_items :: "item list" where
  "two_items = [\<lparr>it_id = 1, it_l = 100, it_w = 50, it_h = 30, it_qty = 1\<rparr>,
                \<lparr>it_id = 2, it_l = 80, it_w = 50, it_h = 30, it_qty = 1\<rparr>]"

definition swapped_result :: api_result where
  "swapped_result =
     \<lparr>items_placed = Val
        [\<lparr>pi_item_id = IdNum 2, pi_x = 0, pi_y = 0, pi_z = 0, pi_l = 80, pi_w = 50, pi_h = 30\<rparr>,
         \<lparr>pi_item_id = IdNum 1, pi_x = 82, pi_y = 0, pi_z = 0, pi_l = 100, pi_w = 50, pi_h = 30\<rparr>],
      filled_volume = Val 270000,
      utilization = Val 22.5,
      item_counts = Val [(''1'', 1), (''2'', 1)]\<rparr>"

text \<open>
  A cutting program of three steps whose \<open>seq\<close> values are not in increasing order,
  with one conflict; the same program without the \<open>conflicts\<close> field, without the
  \<open>sequence\<close> field, and with a first step that has no \<open>node\<close>.
\<close>

definition ex_steps :: "step list" where
  "ex_steps =
     [\<lparr>st_seq = 3, st_operation = ''START'', st_description = ''block'',
       st_node = Val \<lparr>sn_depth = Val 0, sn_volume = Val 1200000\<rparr>\<rparr>,
      \<lparr>st_seq = 1, st_operation = ''CUT'', st_description = ''V at 100'',
       st_node = Val \<lparr>sn_depth = Val 1, sn_volume = Undefined\<rparr>\<rparr>,
      \<lparr>st_seq = 2, st_operation = ''ITEM'', st_description = ''item 1'',
       st_node = Val \<lparr>sn_depth = Val 2, sn_volume = Val 150000\<rparr>\<rparr>]"

definition ex_program :: cutting_tree where
  "ex_program = \<lparr>sequence = Val ex_steps,
                  conflicts = Val [\<lparr>cf_description = ''cut 1 crosses item 2''\<rparr>],
                  total_nodes = Val 3, total_cuts = Val 1, total_items = Val 1\<rparr>"

definition ex_program_quiet :: cutting_tree where
  "ex_program_quiet = ex_program\<lparr>conflicts := Undefined\<rparr>"

definition ex_program_no_sequence :: cutting_tree where
  "ex_program_no_sequence = ex_program\<lparr>sequence := Undefined\<rparr>"

definition ex_steps_no_node :: "step list" where
  "ex_steps_no_node =
     \<lparr>st_seq = 0, st_operation = ''START'', st_description = ''block'',
       st_node = Undefined\<rparr> # ex_steps"

definition ex_program_no_node :: cutting_tree where
  "ex_program_no_node = ex_program\<lparr>sequence := Val ex_steps_no_node\<rparr>"

section \<open>Reconstruction: offsets of a cut\<close>

lemma axis_name_truthy [simp]: "axis_name a \<noteq> []"
  by (cases a) simp_all

lemma num_or_zero_default [simp]: "num_or (Val p) 0 = p"
  by simp

lemma draw_leaf_meshes:
  "meshes (draw_leaf i (x, y, z) L W H st) =
     (if L \<le> 0 \<or> W \<le> 0 \<or> H \<le> 0 then meshes st
      else meshes st @ [\<lparr>px = x, py = y, pz = z, pl = L, pw = W, ph = H,
                          pcolor = fst (leaf_color i st), pid = i\<rparr>])"
  by (simp add: draw_leaf_def leaf_color_def addBox_def Let_def split: option.splits)

text \<open>
  Drawing a subtree from a moved origin moves every box it draws by the same amount and
  changes nothing else, colours included; this holds of both drawing functions.
\<close>

lemma leaf_color_maps:
  "itemColorMap st' = itemColorMap st \<Longrightarrow> itemIndexMap st' = itemIndexMap st \<Longrightarrow>
   fst (leaf_color i st') = fst (leaf_color i st)
   \<and> itemColorMap (snd (leaf_color i st')) = itemColorMap (snd (leaf_color i st))
   \<and> itemIndexMap (snd (leaf_color i st')) = itemIndexMap (snd (leaf_color i st))
   \<and> meshes (snd (leaf_color i st)) = meshes st"
  by (simp add: leaf_color_def Let_def split: option.splits)

lemma draw_leaf_translate:
  assumes "itemColorMap st' = itemColorMap st" and "itemIndexMap st' = itemIndexMap st"
  shows "\<exists>ms. meshes (draw_leaf i orig L W H st) = meshes st @ ms
            \<and> meshes (draw_leaf i (axis_offset a d orig) L W H st') = meshes st' @ map (move a d) ms
            \<and> itemColorMap (draw_leaf i (axis_offset a d orig) L W H st')
                = itemColorMap (draw_leaf i orig L W H st)
            \<and> itemIndexMap (draw_leaf i (axis_offset a d orig) L W H st')
                = itemIndexMap (draw_leaf i orig L W H st)"
proof -
  obtain x y z where o: "orig = (x, y, z)" by (cases orig) auto
  obtain c s1 where l: "leaf_color i st = (c, s1)" by (cases "leaf_color i st") auto
  obtain c' s1' where l': "leaf_color i st' = (c', s1')" by (cases "leaf_color i st'") auto
  from leaf_color_maps [OF assms, where i = i]
       leaf_color_maps [OF refl refl, where st = st' and i = i] l l'
  have e: "c' = c" "itemColorMap s1' = itemColorMap s1" "itemIndexMap s1' = itemIndexMap s1"
       "meshes s1 = meshes st" "meshes s1' = meshes st'"
    by simp_all
  show ?thesis
    by (cases a) (simp_all add: o draw_leaf_def l l' addBox_def e)
qed

lemma offsets_commute:
  "axis_offset a d (newOrigin c p k orig) = newOrigin c p k (axis_offset a d orig)"
  by (cases orig; cases a) (simp_all add: newOrigin_def)

lemma drawTreeNew_translate:
  assumes "itemColorMap st' = itemColorMap st" and "itemIndexMap st' = itemIndexMap st"
  shows "\<exists>ms. meshes (drawTreeNew (to_current t) bd k orig st) = meshes st @ ms
            \<and> meshes (drawTreeNew (to_current t) bd k (axis_offset a d orig) st')
                = meshes st' @ map (move a d) ms
            \<and> itemColorMap (drawTreeNew (to_current t) bd k (axis_offset a d orig) st')
                = itemColorMap (drawTreeNew (to_current t) bd k orig st)
            \<and> itemIndexMap (drawTreeNew (to_current t) bd k (axis_offset a d orig) st')
                = itemIndexMap (drawTreeNew (to_current t) bd k orig st)"
  using assms
proof (induction t arbitrary: orig st st')
  case (Leaf i l w h)
  obtain bL bW bH where b: "bd = (bL, bW, bH)" by (cases bd) auto
  show ?case
  proof (cases "truthy_id (Val i)")
    case True
    with draw_leaf_translate [OF Leaf.prems, of i orig _ _ _ a d] show ?thesis
      by (simp add: b)
  next
    case False
    with Leaf.prems show ?thesis by (simp add: b)
  qed
next
  case (Cut c p lt rt)
  obtain bL bW bH where b: "bd = (bL, bW, bH)" by (cases bd) auto
  let ?s1 = "drawTreeNew (to_current lt) bd k orig st"
  let ?s1' = "drawTreeNew (to_current lt) bd k (axis_offset a d orig) st'"
  let ?o2 = "newOrigin (axis_name c) p k orig"
  from Cut.IH(1) [OF Cut.prems, of orig] obtain ms1 where
    1: "meshes ?s1 = meshes st @ ms1" "meshes ?s1' = meshes st' @ map (move a d) ms1"
       "itemColorMap ?s1' = itemColorMap ?s1" "itemIndexMap ?s1' = itemIndexMap ?s1"
    by blast
  from Cut.IH(2) [OF 1(3,4), of ?o2] obtain ms2 where
    2: "meshes (drawTreeNew (to_current rt) bd k ?o2 ?s1) = meshes ?s1 @ ms2"
       "meshes (drawTreeNew (to_current rt) bd k (axis_offset a d ?o2) ?s1')
          = meshes ?s1' @ map (move a d) ms2"
       "itemColorMap (drawTreeNew (to_current rt) bd k (axis_offset a d ?o2) ?s1')
          = itemColorMap (drawTreeNew (to_current rt) bd k ?o2 ?s1)"
       "itemIndexMap (drawTreeNew (to_current rt) bd k (axis_offset a d ?o2) ?s1')
          = itemIndexMap (drawTreeNew (to_current rt) bd k ?o2 ?s1)"
    by blast
  have e: "drawTreeNew (to_current (Cut c p lt rt)) bd k orig st
             = drawTreeNew (to_current rt) bd k ?o2 ?s1"
          "drawTreeNew (to_current (Cut c p lt rt)) bd k (axis_offset a d orig) st'
             = drawTreeNew (to_current rt) bd k (axis_offset a d ?o2) ?s1'"
    by (simp_all add: b offsets_commute)
  show ?case
    unfolding e using 1 2 by (intro exI [of _ "ms1 @ ms2"]) simp
qed


lemma new_meshes_append: "meshes st' = meshes st @ ms \<Longrightarrow> new_meshes st st' = ms"
  by (simp add: new_meshes_def)

lemma drawTreeNew_current_cut:
  "drawTreeNew (to_current (Cut a p lt rt)) bd k orig st
     = drawTreeNew (to_current rt) bd k (axis_offset a (p + k) orig)
         (drawTreeNew (to_current lt) bd k orig st)"
  by (cases bd; cases orig; cases a) (simp_all add: newOrigin_def add.assoc)

lemma drawTree_legacy_cut:
  "drawTree (to_legacy (Cut a p lt rt)) bd k orig st
     = drawTree (to_legacy rt) bd k (axis_offset (legacy_axis a) (p + k) orig)
         (drawTree (to_legacy lt) bd k orig st)"
  by (cases bd; cases orig; cases a) (simp_all add: add.assoc)

lemma drawTree_legacy_leaf:
  "drawTree (to_legacy (Leaf i l w h)) bd k orig st
     = (if truthy_id (Val i) then draw_leaf i orig l w h st else st)"
  by (cases bd) simp

lemma axis_offsets_commute:
  "axis_offset a d (axis_offset b e orig) = axis_offset b e (axis_offset a d orig)"
  by (cases orig; cases a; cases b) simp_all

lemma drawTree_legacy_translate:
  assumes "itemColorMap st' = itemColorMap st" and "itemIndexMap st' = itemIndexMap st"
  shows "\<exists>ms. meshes (drawTree (to_legacy t) bd k orig st) = meshes st @ ms
            \<and> meshes (drawTree (to_legacy t) bd k (axis_offset a d orig) st')
                = meshes st' @ map (move a d) ms
            \<and> itemColorMap (drawTree (to_legacy t) bd k (axis_offset a d orig) st')
                = itemColorMap (drawTree (to_legacy t) bd k orig st)
            \<and> itemIndexMap (drawTree (to_legacy t) bd k (axis_offset a d orig) st')
                = itemIndexMap (drawTree (to_legacy t) bd k orig st)"
  using assms
proof (induction t arbitrary: orig st st')
  case (Leaf i l w h)
  show ?case
  proof (cases "truthy_id (Val i)")
    case True
    with draw_leaf_translate [OF Leaf.prems, of i orig l w h a d] show ?thesis
      by (simp only: drawTree_legacy_leaf if_True)
  next
    case False
    with Leaf.prems show ?thesis
      by (simp only: drawTree_legacy_leaf if_False) simp
  qed
next
  case (Cut c p lt rt)
  let ?s1 = "drawTree (to_legacy lt) bd k orig st"
  let ?s1' = "drawTree (to_legacy lt) bd k (axis_offset a d orig) st'"
  let ?o2 = "axis_offset (legacy_axis c) (p + k) orig"
  from Cut.IH(1) [OF Cut.prems, of orig] obtain ms1 where
    1: "meshes ?s1 = meshes st @ ms1" "meshes ?s1' = meshes st' @ map (move a d) ms1"
       "itemColorMap ?s1' = itemColorMap ?s1" "itemIndexMap ?s1' = itemIndexMap ?s1"
    by blast
  from Cut.IH(2) [OF 1(3,4), of ?o2] obtain ms2 where
    2: "meshes (drawTree (to_legacy rt) bd k ?o2 ?s1) = meshes ?s1 @ ms2"
       "meshes (drawTree (to_legacy rt) bd k (axis_offset a d ?o2) ?s1')
          = meshes ?s1' @ map (move a d) ms2"
       "itemColorMap (drawTree (to_legacy rt) bd k (axis_offset a d ?o2) ?s1')
          = itemColorMap (drawTree (to_legacy rt) bd k ?o2 ?s1)"
       "itemIndexMap (drawTree (to_legacy rt) bd k (axis_offset a d ?o2) ?s1')
          = itemIndexMap (drawTree (to_legacy rt) bd k ?o2 ?s1)"
    by blast
  have e: "drawTree (to_legacy (Cut c p lt rt)) bd k orig st
             = drawTree (to_legacy rt) bd k ?o2 ?s1"
          "drawTree (to_legacy (Cut c p lt rt)) bd k (axis_offset a d orig) st'
             = drawTree (to_legacy rt) bd k (axis_offset a d ?o2) ?s1'"
    by (simp_all only: drawTree_legacy_cut axis_offsets_commute [of a d])
  show ?case
    unfolding e using 1 2 by (intro exI [of _ "ms1 @ ms2"]) simp
qed

text \<open>
  On a tree whose leaves carry truthy ids the boxes drawn are the placements of the
  spec's reconstruction, in its order: for the legacy schema with the letters read as
  \<open>legacy_axis\<close> reads them, for the current schema when no leaf has a zero
  dimension.
\<close>

lemma draw_leaf_placement:
  "0 < L \<Longrightarrow> 0 < W \<Longrightarrow> 0 < H \<Longrightarrow>
   \<exists>m. meshes (draw_leaf i orig L W H st) = meshes st @ [m] \<and> placement_of m = (i, orig, (L, W, H))"
  by (cases orig) (simp add: draw_leaf_meshes placement_of_def origin_of_def)

lemma draw_leaf_nothing:
  "L \<le> 0 \<or> W \<le> 0 \<or> H \<le> 0 \<Longrightarrow> meshes (draw_leaf i orig L W H st) = meshes st"
  by (cases orig) (auto simp add: draw_leaf_meshes)

lemma draw_leaf_reconstruct:
  "\<exists>ms. meshes (draw_leaf i orig l w h st) = meshes st @ ms
        \<and> map placement_of ms = reconstruct k (Leaf i l w h) orig"
proof (cases "l \<le> 0 \<or> w \<le> 0 \<or> h \<le> 0")
  case True
  from draw_leaf_nothing [OF True, of i orig st] True show ?thesis
    by (intro exI [of _ "[]"]) simp
next
  case False
  then have "0 < l" "0 < w" "0 < h" by simp_all
  from draw_leaf_placement [OF this, of i orig st] False show ?thesis
    by auto
qed

lemma drawTree_legacy_reconstruct:
  "truthy_ids t \<Longrightarrow>
   \<exists>ms. meshes (drawTree (to_legacy t) bd k orig st) = meshes st @ ms
        \<and> map placement_of ms = reconstruct k (relabel legacy_axis t) orig"
proof (induction t arbitrary: orig st)
  case (Leaf i l w h)
  with draw_leaf_reconstruct [of i orig l w h st k] show ?case
    by (simp add: drawTree_legacy_leaf)
next
  case (Cut a p lt rt)
  let ?s1 = "drawTree (to_legacy lt) bd k orig st"
  let ?o2 = "axis_offset (legacy_axis a) (p + k) orig"
  from Cut.prems have t: "truthy_ids lt" "truthy_ids rt" by simp_all
  from Cut.IH(1) [OF t(1), of orig st] obtain ms1 where
    1: "meshes ?s1 = meshes st @ ms1"
       "map placement_of ms1 = reconstruct k (relabel legacy_axis lt) orig"
    by blast
  from Cut.IH(2) [OF t(2), of ?o2 ?s1] obtain ms2 where
    2: "meshes (drawTree (to_legacy rt) bd k ?o2 ?s1) = meshes ?s1 @ ms2"
       "map placement_of ms2 = reconstruct k (relabel legacy_axis rt) ?o2"
    by blast
  show ?case
    unfolding drawTree_legacy_cut using 1 2 by (intro exI [of _ "ms1 @ ms2"]) simp
qed

lemma drawTreeNew_current_leaf:
  "l \<noteq> 0 \<Longrightarrow> w \<noteq> 0 \<Longrightarrow> h \<noteq> 0 \<Longrightarrow>
   drawTreeNew (to_current (Leaf i l w h)) bd k orig st
     = (if truthy_id (Val i) then draw_leaf i orig l w h st else st)"
  by (cases bd) simp

lemma drawTreeNew_current_reconstruct:
  "truthy_ids t \<Longrightarrow> nonzero_leaves t \<Longrightarrow>
   \<exists>ms. meshes (drawTreeNew (to_current t) bd k orig st) = meshes st @ ms
        \<and> map placement_of ms = reconstruct k t orig"
proof (induction t arbitrary: orig st)
  case (Leaf i l w h)
  then have n: "l \<noteq> 0" "w \<noteq> 0" "h \<noteq> 0" and t: "truthy_id (Val i)" by simp_all
  from draw_leaf_reconstruct [of i orig l w h st k] t show ?case
    by (simp only: drawTreeNew_current_leaf [OF n] if_True)
next
  case (Cut a p lt rt)
  let ?s1 = "drawTreeNew (to_current lt) bd k orig st"
  let ?o2 = "axis_offset a (p + k) orig"
  from Cut.prems have t: "truthy_ids lt" "truthy_ids rt" "nonzero_leaves lt" "nonzero_leaves rt"
    by simp_all
  from Cut.IH(1) [OF t(1,3), of orig st] obtain ms1 where
    1: "meshes ?s1 = meshes st @ ms1" "map placement_of ms1 = reconstruct k lt orig"
    by blast
  from Cut.IH(2) [OF t(2,4), of ?o2 ?s1] obtain ms2 where
    2: "meshes (drawTreeNew (to_current rt) bd k ?o2 ?s1) = meshes ?s1 @ ms2"
       "map placement_of ms2 = reconstruct k rt ?o2"
    by blast
  show ?case
    unfolding drawTreeNew_current_cut using 1 2 by (intro exI [of _ "ms1 @ ms2"]) simp
qed

text \<open>
  C1 (as amended). For every canonical cut with axis \<open>a\<close>, position \<open>p\<close> and kerf
  \<open>k\<close>, the boxes drawn are those of the left subtree drawn at the current origin,
  followed by the boxes of the right subtree, each of which is the box that subtree
  gives at the cut's own origin moved by \<open>p + k\<close> along one dimension, the other two
  coordinates unchanged. In the current schema \<open>V\<close> moves x, \<open>D\<close> moves y and
  \<open>H\<close> moves z; in the legacy schema \<open>H\<close> moves x, \<open>V\<close> moves y and \<open>D\<close>
  moves z (\<open>legacy_axis\<close>). On a tree whose leaves have truthy ids and no zero
  dimension the placements are exactly those of the spec's reconstruction, so that a
  leaf that is the right subtree of a cut at origin (x, y, z) lies at x + p + k, y, z
  (with the dimension of the schema's letter).
\<close>

theorem cut_offsets_by_schema:
  assumes "truthy_ids t" and "nonzero_leaves t"
  shows "meshes (drawTreeNew (to_current (Cut a p lt rt)) bd k orig st)
           = meshes (drawTreeNew (to_current lt) bd k orig st)
             @ map (move a (p + k))
                 (new_meshes (drawTreeNew (to_current lt) bd k orig st)
                    (drawTreeNew (to_current rt) bd k orig
                       (drawTreeNew (to_current lt) bd k orig st)))
       \<and> meshes (drawTree (to_legacy (Cut a p lt rt)) bd k orig st)
           = meshes (drawTree (to_legacy lt) bd k orig st)
             @ map (move (legacy_axis a) (p + k))
                 (new_meshes (drawTree (to_legacy lt) bd k orig st)
                    (drawTree (to_legacy rt) bd k orig
                       (drawTree (to_legacy lt) bd k orig st)))
       \<and> map placement_of (new_meshes st (drawTreeNew (to_current t) bd k orig st))
           = reconstruct k t orig
       \<and> map placement_of (new_meshes st (drawTree (to_legacy t) bd k orig st))
           = reconstruct k (relabel legacy_axis t) orig"
proof -
  let ?s1 = "drawTreeNew (to_current lt) bd k orig st"
  let ?q1 = "drawTree (to_legacy lt) bd k orig st"
  from drawTreeNew_translate [OF refl refl, of rt bd k orig ?s1 a "p + k"] obtain ms2 where
    c: "meshes (drawTreeNew (to_current rt) bd k orig ?s1) = meshes ?s1 @ ms2"
       "meshes (drawTreeNew (to_current rt) bd k (axis_offset a (p + k) orig) ?s1)
          = meshes ?s1 @ map (move a (p + k)) ms2"
    by blast
  have 1: "meshes (drawTreeNew (to_current (Cut a p lt rt)) bd k orig st)
           = meshes ?s1 @ map (move a (p + k))
               (new_meshes ?s1 (drawTreeNew (to_current rt) bd k orig ?s1))"
    by (simp only: drawTreeNew_current_cut c(2) new_meshes_append [OF c(1)])
  from drawTree_legacy_translate [OF refl refl, of rt bd k orig ?q1 "legacy_axis a" "p + k"]
  obtain ns2 where
    l: "meshes (drawTree (to_legacy rt) bd k orig ?q1) = meshes ?q1 @ ns2"
       "meshes (drawTree (to_legacy rt) bd k (axis_offset (legacy_axis a) (p + k) orig) ?q1)
          = meshes ?q1 @ map (move (legacy_axis a) (p + k)) ns2"
    by blast
  have 2: "meshes (drawTree (to_legacy (Cut a p lt rt)) bd k orig st)
           = meshes ?q1 @ map (move (legacy_axis a) (p + k))
               (new_meshes ?q1 (drawTree (to_legacy rt) bd k orig ?q1))"
    by (simp only: drawTree_legacy_cut l(2) new_meshes_append [OF l(1)])
  from drawTreeNew_current_reconstruct [OF assms, of bd k orig st] obtain ms where
    m: "meshes (drawTreeNew (to_current t) bd k orig st) = meshes st @ ms"
       "map placement_of ms = reconstruct k t orig"
    by blast
  have 3: "map placement_of (new_meshes st (drawTreeNew (to_current t) bd k orig st))
           = reconstruct k t orig"
    by (simp only: new_meshes_append [OF m(1)] m(2))
  from drawTree_legacy_reconstruct [OF assms(1), of bd k orig st] obtain ns where
    n: "meshes (drawTree (to_legacy t) bd k orig st) = meshes st @ ns"
       "map placement_of ns = reconstruct k (relabel legacy_axis t) orig"
    by blast
  have 4: "map placement_of (new_meshes st (drawTree (to_legacy t) bd k orig st))
           = reconstruct k (relabel legacy_axis t) orig"
    by (simp only: new_meshes_append [OF n(1)] n(2))
  from 1 2 3 4 show ?thesis by blast
qed

theorem cut_offsets_by_schema_witness:
  "truthy_ids nested_cut \<and> nonzero_leaves nested_cut
   \<and> map placement_of
        (new_meshes st0 (drawTreeNew (to_current nested_cut) (100, 100, 100) 2 (0, 0, 0) st0))
     = [(IdNum 1, (0, 0, 0), (5, 5, 5)), (IdNum 2, (12, 0, 0), (5, 5, 5)),
        (IdNum 3, (34, 0, 0), (5, 5, 5))]
   \<and> map placement_of
        (new_meshes st0 (drawTree (to_legacy nested_cut) (100, 100, 100) 2 (0, 0, 0) st0))
     = [(IdNum 1, (0, 0, 0), (5, 5, 5)), (IdNum 2, (0, 12, 0), (5, 5, 5)),
        (IdNum 3, (0, 34, 0), (5, 5, 5))]"
proof -
  have h: "truthy_ids nested_cut" "nonzero_leaves nested_cut"
    by (simp_all add: nested_cut_def)
  have r: "reconstruct 2 nested_cut (0, 0, 0)
             = [(IdNum 1, (0, 0, 0), (5, 5, 5)), (IdNum 2, (12, 0, 0), (5, 5, 5)),
                (IdNum 3, (34, 0, 0), (5, 5, 5))]"
          "reconstruct 2 (relabel legacy_axis nested_cut) (0, 0, 0)
             = [(IdNum 1, (0, 0, 0), (5, 5, 5)), (IdNum 2, (0, 12, 0), (5, 5, 5)),
                (IdNum 3, (0, 34, 0), (5, 5, 5))]"
    by (simp_all add: nested_cut_def)
  from cut_offsets_by_schema [OF h, of AxV 10 "Leaf (IdNum 1) 5 5 5" "Leaf (IdNum 2) 5 5 5"
      "(100, 100, 100)" 2 "(0, 0, 0)" st0] h r
  show ?thesis by (simp only:)
qed

text \<open>
  The claim as written fails on a legacy tree: with axis \<open>V\<close>, position 10 and kerf 2
  the right leaf is placed at y = 12 and x = 0, not at x = 12.
\<close>

theorem legacy_axis_V_counterexample:
  "map (\<lambda>m. (px m, py m, pz m))
       (meshes (drawTree (to_legacy (two_leaves AxV)) (100, 100, 100) 2 (0, 0, 0) st0))
     = [(0, 0, 0), (0, 12, 0)]
   \<and> px (last (meshes (drawTree (to_legacy (two_leaves AxV)) (100, 100, 100) 2 (0, 0, 0) st0)))
     \<noteq> 0 + 10 + 2"
  by (simp add: two_leaves_def st0_def draw_leaf_meshes)

text \<open>
  A box of the right subtree need not lie at x + p + k itself: below a second \<open>V\<close>
  cut at position 20 inside the right subtree, item 3 lies at x = 12 + 22.
\<close>

lemma nested_right_cut_example:
  "map (\<lambda>m. (pid m, origin_of m))
       (meshes (drawTreeNew (to_current nested_cut) (100, 100, 100) 2 (0, 0, 0) st0))
     = [(IdNum 1, (0, 0, 0)), (IdNum 2, (12, 0, 0)), (IdNum 3, (34, 0, 0))]"
  by (simp add: nested_cut_def st0_def draw_leaf_meshes newOrigin_def origin_of_def)

section \<open>Reconstruction: leaves that are not drawn\<close>

text \<open>
  C6. A leaf with a dimension at most 0 gives no placement in the spec's reconstruction.
  In the current schema a leaf with length 0 is drawn all the same: \<open>drawTreeNew\<close>
  reads \<open>tree.length || blockDims[0]\<close>, so in a 10 x 10 x 10 block the leaf
  0 x 5 x 5 reaches \<open>addBox\<close> as 10 x 5 x 5 and passes its guard.
\<close>

theorem zero_length_leaf_is_drawn:
  "map placement_of
       (meshes (drawTreeNew (to_current (Leaf (IdNum 1) 0 5 5)) (10, 10, 10) 2 (0, 0, 0) st0))
     = [(IdNum 1, (0, 0, 0), (10, 5, 5))]
   \<and> reconstruct 2 (Leaf (IdNum 1) 0 5 5) (0, 0, 0) = []"
  by (simp add: st0_def draw_leaf_meshes placement_of_def origin_of_def)

text \<open>
  What does hold: a leaf is not drawn when a dimension that reaches \<open>addBox\<close> is at
  most 0, which is so for every negative dimension, and for a zero one in the legacy
  schema (\<open>nonpositive_leaf_not_drawn\<close>); the placements of the rest of the tree
  are then those of the spec's reconstruction (\<open>drawTreeNew_current_reconstruct\<close>,
  \<open>drawTree_legacy_reconstruct\<close>). A leaf that is not drawn has still been given its
  colour, and with it an index of the palette.
\<close>

lemma nonpositive_leaf_not_drawn:
  assumes "truthy_id (item_id n)" and "\<not> truthy_str (cut_dir n)"
      and "num_or (length_n n) bL \<le> 0 \<or> num_or (width n) bW \<le> 0 \<or> num_or (height n) bH \<le> 0"
      and "\<not> defined (length_n m)" and "\<not> defined (cut_dir m)"
      and "kind m = Val ''leaf''" and "truthy_id (item_id m)" and "box m = Val (L, W, H)"
      and "L \<le> 0 \<or> W \<le> 0 \<or> H \<le> 0"
  shows "meshes (drawTreeNew n (bL, bW, bH) k orig st) = meshes st
       \<and> meshes (drawTree m bd k orig st) = meshes st"
proof -
  obtain x y z where o: "orig = (x, y, z)" by (cases orig) auto
  have A: "meshes (drawTreeNew n (bL, bW, bH) k orig st) = meshes st"
    using assms(1-3) by (cases n) (auto simp add: o draw_leaf_meshes)
  have B: "meshes (drawTree m bd k orig st) = meshes st"
    using assms(4-9) by (cases m) (auto simp add: o draw_leaf_meshes)
  show ?thesis using A B by simp
qed

lemma dropped_leaf_sibling_drawn:
  "map (\<lambda>m. (pid m, origin_of m))
       (meshes (drawTreeNew (to_current (Cut AxV 10 (Leaf (IdNum 1) (- 3) 5 5) (Leaf (IdNum 2) 5 5 5)))
                  (100, 100, 100) 2 (0, 0, 0) st0))
     = [(IdNum 2, (12, 0, 0))]"
  by (simp add: st0_def draw_leaf_meshes newOrigin_def origin_of_def)

lemma dropped_leaf_takes_colour_index:
  "meshes (drawTreeNew (to_current (Leaf (IdNum 1) (- 3) 5 5)) (10, 10, 10) 2 (0, 0, 0) st0) = []
   \<and> map fst (itemColorMap
        (drawTreeNew (to_current (Leaf (IdNum 1) (- 3) 5 5)) (10, 10, 10) 2 (0, 0, 0) st0))
     = [''1'']"
  by (simp add: st0_def draw_leaf_def leaf_color_def addBox_def map_set_def Let_def
      js_string_def digits_of.simps digit_char_def)

text \<open>
  C10. A node whose \<open>item_id\<close> is falsy (0, the empty string, missing) adds nothing of
  its own to the statistics, in either branch of \<open>countItems\<close>; when it has no
  \<open>cut_dir\<close> either, \<open>drawTreeNew\<close> leaves the scene and the colour maps as they are.
\<close>

theorem falsy_item_id_not_a_leaf:
  assumes "\<not> truthy_id (item_id n)"
  shows "count_new n s = s \<and> count_old n s = s
       \<and> (\<not> truthy_str (cut_dir n) \<longrightarrow> drawTreeNew n bd k orig st = st)"
  using assms by (cases n; cases bd) (simp add: count_new_def count_old_def)

theorem falsy_item_id_not_a_leaf_witness:
  "count_new zero_id_node s0 = s0 \<and> count_old zero_id_node s0 = s0
   \<and> drawTreeNew zero_id_node (10, 10, 10) 2 (0, 0, 0) st0 = st0"
  using falsy_item_id_not_a_leaf [of zero_id_node s0 "(10, 10, 10)" 2 "(0, 0, 0)" st0]
  by (simp add: zero_id_node_def)

section \<open>Volume conservation and the fallback count\<close>

lemma drawTreeNew_current_volume:
  "positive_leaves t \<Longrightarrow>
   sum_list (map volume_of (meshes (drawTreeNew (to_current t) bd k orig st)))
     = sum_list (map volume_of (meshes st)) + sum_list (map snd (leaves t))"
proof (induction t arbitrary: orig st)
  case (Leaf i l w h)
  obtain x y z where o: "orig = (x, y, z)" by (cases orig) auto
  obtain bL bW bH where b: "bd = (bL, bW, bH)" by (cases bd) auto
  from Leaf show ?case
    by (simp add: o b draw_leaf_meshes volume_of_def)
next
  case (Cut a p lt rt)
  obtain bL bW bH where b: "bd = (bL, bW, bH)" by (cases bd) auto
  from Cut show ?case
    by (simp add: b)
qed

lemma drawTree_legacy_volume:
  "positive_leaves t \<Longrightarrow>
   sum_list (map volume_of (meshes (drawTree (to_legacy t) bd k orig st)))
     = sum_list (map volume_of (meshes st)) + sum_list (map snd (leaves t))"
proof (induction t arbitrary: orig st)
  case (Leaf i l w h)
  obtain x y z where o: "orig = (x, y, z)" by (cases orig) auto
  from Leaf show ?case
    by (simp add: o draw_leaf_meshes volume_of_def)
next
  case (Cut a p lt rt)
  obtain x y z where o: "orig = (x, y, z)" by (cases orig) auto
  from Cut show ?case
    by (cases a) (simp_all add: o)
qed

lemma totalFilled_add_leaf [simp]: "totalFilled (add_leaf i v s) = totalFilled s + v"
  by (simp add: add_leaf_def Let_def)

lemma countItems_current_leaves:
  "countItems (to_current t) s = fold (\<lambda>(i, v). add_leaf i v) (leaves t) s"
  by (induction t arbitrary: s) (simp_all add: count_new_def count_old_def)

lemma countItems_legacy_leaves:
  "countItems (to_legacy t) s = fold (\<lambda>(i, v). add_leaf i v \<circ> add_leaf i 0) (leaves t) s"
  by (induction t arbitrary: s) (simp_all add: count_new_def count_old_def)

lemma totalFilled_fold_once:
  "totalFilled (fold (\<lambda>(i, v). add_leaf i v) xs s) = totalFilled s + sum_list (map snd xs)"
  by (induction xs arbitrary: s) (auto simp: case_prod_beta)

lemma totalFilled_fold_twice:
  "totalFilled (fold (\<lambda>(i, v). add_leaf i v \<circ> add_leaf i 0) xs s) = totalFilled s + sum_list (map snd xs)"
  by (induction xs arbitrary: s) (auto simp: case_prod_beta)

lemma totalFilled_calc:
  "totalFilled (calculateStatisticsNew (Val n) bd) =
     totalFilled (countItems n \<lparr>items = Map.empty, totalFilled = 0, totalWaste = 0,
                  totalVolume = fst bd * fst (snd bd) * snd (snd bd), fillPercent = 0, wastePercent = 0\<rparr>)"
  by (cases bd) (simp add: calculateStatisticsNew_def Let_def)

text \<open>
  C2 (as amended). For a canonical tree whose leaves all have positive length, width and
  height, written in the current schema and drawn by \<open>drawTreeNew\<close>, or written in
  the legacy schema and drawn by \<open>drawTree\<close>, the volumes of the boxes drawn add up
  to the \<open>totalFilled\<close> that \<open>calculateStatisticsNew\<close> computes on the same tree.
\<close>

theorem volume_conservation_positive_leaves:
  assumes "positive_leaves t"
  shows "sum_list (map volume_of (meshes (drawTreeNew (to_current t) bd k orig st0)))
           = totalFilled (calculateStatisticsNew (Val (to_current t)) bd)
       \<and> sum_list (map volume_of (meshes (drawTree (to_legacy t) bd k orig st0)))
           = totalFilled (calculateStatisticsNew (Val (to_legacy t)) bd)"
  using assms
  by (simp add: drawTreeNew_current_volume drawTree_legacy_volume totalFilled_calc
      countItems_current_leaves countItems_legacy_leaves totalFilled_fold_once
      totalFilled_fold_twice st0_def)

theorem volume_conservation_positive_leaves_witness:
  "positive_leaves (two_leaves AxV)
   \<and> sum_list (map volume_of (meshes (drawTreeNew (to_current (two_leaves AxV)) (10, 10, 10) 2 (0, 0, 0) st0)))
       = totalFilled (calculateStatisticsNew (Val (to_current (two_leaves AxV))) (10, 10, 10))
   \<and> sum_list (map volume_of (meshes (drawTree (to_legacy (two_leaves AxV)) (10, 10, 10) 2 (0, 0, 0) st0)))
       = totalFilled (calculateStatisticsNew (Val (to_legacy (two_leaves AxV))) (10, 10, 10))"
proof -
  have h: "positive_leaves (two_leaves AxV)"
    by (simp add: two_leaves_def)
  from volume_conservation_positive_leaves [OF h, of "(10, 10, 10)" 2 "(0, 0, 0)"] h
  show ?thesis by blast
qed

lemma two_leaves_volume_250:
  "totalFilled (calculateStatisticsNew (Val (to_current (two_leaves AxV))) (10, 10, 10)) = 250"
  by (simp only: totalFilled_calc countItems_current_leaves totalFilled_fold_once)
     (simp add: two_leaves_def)

text \<open>
  The claim as written fails on a leaf with two negative dimensions: \<open>addBox\<close> does not
  draw it, the statistics add its volume 24. It fails as well on a leaf with length 0,
  which is drawn with the block's length and counted with volume 0.
\<close>

theorem negative_leaf_volume_counterexample:
  "sum_list (map volume_of (meshes (drawTreeNew (to_current (Leaf (IdNum 1) (- 2) (- 3) 4)) (10, 10, 10) 2 (0, 0, 0) st0)))
     = 0
   \<and> totalFilled (calculateStatisticsNew (Val (to_current (Leaf (IdNum 1) (- 2) (- 3) 4))) (10, 10, 10)) = 24"
  by (simp add: st0_def draw_leaf_meshes totalFilled_calc count_new_def count_old_def)

lemma zero_leaf_volume_example:
  "sum_list (map volume_of (meshes (drawTreeNew (to_current (Leaf (IdNum 1) 0 5 5)) (10, 10, 10) 2 (0, 0, 0) st0)))
     = 250
   \<and> totalFilled (calculateStatisticsNew (Val (to_current (Leaf (IdNum 1) 0 5 5))) (10, 10, 10)) = 0"
  by (simp add: st0_def draw_leaf_meshes totalFilled_calc count_new_def count_old_def volume_of_def)

text \<open>
  C4. On a tree of the current schema \<open>countItems\<close> adds each leaf once
  (\<open>countItems_current_leaves\<close>). A leaf of the legacy schema passes both tests of
  \<open>countItems\<close>, the one of the current schema with volume 0 and the one of the
  legacy schema with the volume of its box (\<open>countItems_legacy_leaves\<close>): one legacy
  leaf of item 1, 100 x 50 x 30, ends with count 2.
\<close>

theorem legacy_leaf_counted_twice:
  "items (calculateStatisticsNew (Val (to_legacy (Leaf (IdNum 1) 100 50 30))) (200, 100, 60)) ''1''
     = Some \<lparr>stat_id = IdNum 1, stat_count = 2, stat_volume = 150000\<rparr>"
  by (simp add: calculateStatisticsNew_def count_new_def count_old_def add_leaf_def Let_def
      js_string_def digits_of.simps digit_char_def)

lemma current_leaf_counted_once:
  "items (calculateStatisticsNew (Val (to_current (Leaf (IdNum 1) 100 50 30))) (200, 100, 60)) ''1''
     = Some \<lparr>stat_id = IdNum 1, stat_count = 1, stat_volume = 150000\<rparr>"
  by (simp add: calculateStatisticsNew_def count_new_def count_old_def add_leaf_def Let_def
      js_string_def digits_of.simps digit_char_def)

section \<open>Totals and percentages\<close>

lemma totalVolume_add_leaf [simp]: "totalVolume (add_leaf i v s) = totalVolume s"
  by (simp add: add_leaf_def Let_def)

lemma totalVolume_count_new [simp]: "totalVolume (count_new n s) = totalVolume s"
  by (simp add: count_new_def)

lemma totalVolume_count_old [simp]: "totalVolume (count_old n s) = totalVolume s"
  by (simp add: count_old_def split: prod.splits)

lemma totalVolume_fold:
  "(\<And>x s. x \<in> set xs \<Longrightarrow> totalVolume (f x s) = totalVolume s) \<Longrightarrow>
   totalVolume (fold f xs s) = totalVolume s"
  by (induction xs arbitrary: s) simp_all

lemma totalVolume_countItems: "totalVolume (countItems n s) = totalVolume s"
proof (induction n s rule: countItems.induct)
  case (1 iid len wid hei cdir cpos lp rp knd bx ax ps ch st)
  let ?n = "Node iid len wid hei cdir cpos lp rp knd bx ax ps ch"
  let ?s1 = "count_old ?n (count_new ?n st)"
  let ?s2 = "case lp of Val l \<Rightarrow> countItems l ?s1 | _ \<Rightarrow> ?s1"
  let ?s3 = "case rp of Val r \<Rightarrow> countItems r ?s2 | _ \<Rightarrow> ?s2"
  have t1: "totalVolume ?s1 = totalVolume st"
    by simp
  have t2: "totalVolume ?s2 = totalVolume st"
  proof (cases lp)
    case (Val l)
    from "1.IH"(1) [OF refl refl Val] t1 Val show ?thesis by simp
  qed (simp_all add: t1)
  have t3: "totalVolume ?s3 = totalVolume st"
  proof (cases rp)
    case (Val r)
    from "1.IH"(2) [OF refl refl refl Val] t2 Val show ?thesis by simp
  qed (simp_all add: t2)
  have t4: "totalVolume (case ch of Val cs \<Rightarrow> fold countItems cs ?s3 | _ \<Rightarrow> ?s3) = totalVolume st"
  proof (cases ch)
    case (Val cs)
    have "\<And>x s. x \<in> set cs \<Longrightarrow> totalVolume (countItems x s) = totalVolume s"
      using "1.IH"(3) [OF refl refl refl refl Val] by blast
    then have "totalVolume (fold countItems cs ?s3) = totalVolume ?s3"
      by (rule totalVolume_fold)
    with t3 Val show ?thesis by simp
  qed (simp_all add: t3)
  show ?case
    unfolding countItems.simps Let_def by (rule t4)
qed

lemma waste_percent_complement:
  "(0::real) < V \<Longrightarrow> (V - F) / V * 100 = 100 - 100 * F / V"
  by (simp add: field_simps)

lemma calc_totalVolume:
  "totalVolume (calculateStatisticsNew tree (bL, bW, bH)) = bL * bW * bH"
  by (cases tree) (simp_all add: calculateStatisticsNew_def Let_def totalVolume_countItems)


lemma calc_totalWaste:
  "totalWaste (calculateStatisticsNew tree bd) =
     totalVolume (calculateStatisticsNew tree bd) - totalFilled (calculateStatisticsNew tree bd)"
  by (cases bd) (simp add: calculateStatisticsNew_def Let_def)

lemma calc_fillPercent:
  "fillPercent (calculateStatisticsNew tree bd) =
     (if totalVolume (calculateStatisticsNew tree bd) > 0
      then totalFilled (calculateStatisticsNew tree bd) / totalVolume (calculateStatisticsNew tree bd) * 100
      else 0)"
  by (cases bd) (simp add: calculateStatisticsNew_def Let_def)

lemma calc_wastePercent:
  "wastePercent (calculateStatisticsNew tree bd) =
     (if totalVolume (calculateStatisticsNew tree bd) > 0
      then totalWaste (calculateStatisticsNew tree bd) / totalVolume (calculateStatisticsNew tree bd) * 100
      else 0)"
  by (cases bd) (simp add: calculateStatisticsNew_def Let_def)

lemma calc_percentages:
  assumes "s = calculateStatisticsNew tree bd"
  shows "fillPercent s = (if totalVolume s > 0 then 100 * totalFilled s / totalVolume s else 0)
       \<and> wastePercent s = (if totalVolume s > 0 then 100 - fillPercent s else 0)"
proof (cases "totalVolume s > 0")
  case True
  have f: "fillPercent s = 100 * totalFilled s / totalVolume s"
    using True by (simp add: assms calc_fillPercent)
  have "wastePercent s = (totalVolume s - totalFilled s) / totalVolume s * 100"
    using True by (simp add: assms calc_wastePercent calc_totalWaste)
  also have "\<dots> = 100 - 100 * totalFilled s / totalVolume s"
    using True by (rule waste_percent_complement)
  finally show ?thesis
    using True f by simp
next
  case False
  then show ?thesis
    by (simp add: assms calc_fillPercent calc_wastePercent)
qed

text \<open>
  C5 (as amended). In both modes \<open>totalVolume\<close> is the product of the block's three
  dimensions and \<open>totalWaste\<close> is \<open>totalVolume\<close> minus \<open>totalFilled\<close>. In
  fallback mode (\<open>calculateStatisticsNew\<close>), when \<open>totalVolume\<close> is positive
  \<open>fillPercent\<close> is 100 times \<open>totalFilled\<close> over \<open>totalVolume\<close> and
  \<open>wastePercent\<close> is 100 minus \<open>fillPercent\<close>; otherwise both are 0. In
  authoritative mode (the run handler) \<open>totalFilled\<close> is the producer's
  \<open>filled_volume\<close> (0 when missing), \<open>fillPercent\<close> is the producer's
  \<open>utilization\<close> (0 when missing) and \<open>wastePercent\<close> is 100 minus it, whatever
  the volume of the block.
\<close>

theorem totals_in_both_modes:
  assumes "s = calculateStatisticsNew tree (bL, bW, bH)"
      and "a = patch_stats result its bL bW bH"
  shows "totalVolume s = bL * bW * bH
       \<and> totalWaste s = totalVolume s - totalFilled s
       \<and> fillPercent s = (if totalVolume s > 0 then 100 * totalFilled s / totalVolume s else 0)
       \<and> wastePercent s = (if totalVolume s > 0 then 100 - fillPercent s else 0)
       \<and> totalVolume a = bL * bW * bH
       \<and> totalFilled a = num_or (filled_volume result) 0
       \<and> totalWaste a = totalVolume a - totalFilled a
       \<and> fillPercent a = num_or (utilization result) 0
       \<and> wastePercent a = 100 - fillPercent a"
proof -
  have 1: "totalVolume s = bL * bW * bH"
    by (simp add: assms(1) calc_totalVolume)
  have 2: "totalWaste s = totalVolume s - totalFilled s"
    by (simp add: assms(1) calc_totalWaste)
  note 3 = calc_percentages [OF assms(1)]
  have 4: "totalVolume a = bL * bW * bH \<and> totalFilled a = num_or (filled_volume result) 0
       \<and> totalWaste a = totalVolume a - totalFilled a
       \<and> fillPercent a = num_or (utilization result) 0
       \<and> wastePercent a = 100 - fillPercent a"
    by (simp add: assms(2) patch_stats_def Let_def)
  from 1 2 3 4 show ?thesis by blast
qed

lemma ex_tree_filled:
  "totalFilled (calculateStatisticsNew (Val (to_current ex_tree)) (200, 100, 60)) = 300000"
  by (simp only: totalFilled_calc countItems_current_leaves totalFilled_fold_once)
     (simp add: ex_tree_def)

theorem totals_in_both_modes_witness:
  "totalVolume (calculateStatisticsNew (Val (to_current ex_tree)) (200, 100, 60)) = 1200000
   \<and> totalWaste (calculateStatisticsNew (Val (to_current ex_tree)) (200, 100, 60)) = 900000
   \<and> fillPercent (calculateStatisticsNew (Val (to_current ex_tree)) (200, 100, 60)) = 25
   \<and> wastePercent (calculateStatisticsNew (Val (to_current ex_tree)) (200, 100, 60)) = 75
   \<and> totalVolume (patch_stats ex_result ex_items 200 100 60) = 1200000
   \<and> totalWaste (patch_stats ex_result ex_items 200 100 60) = 900000
   \<and> fillPercent (patch_stats ex_result ex_items 200 100 60) = 25
   \<and> wastePercent (patch_stats ex_result ex_items 200 100 60) = 75"
  using totals_in_both_modes [OF refl refl, of "Val (to_current ex_tree)" 200 100 60
      ex_result ex_items] ex_tree_filled
  by (simp add: ex_result_def)

text \<open>
  The claim as written fails in authoritative mode: for a block of volume 0 and a result
  without \<open>utilization\<close> the waste is reported as 100 percent, not 0; and
  \<open>fillPercent\<close> is the producer's figure, not one computed from \<open>totalFilled\<close>
  (\<open>authoritative_fill_is_producers\<close>).
\<close>

theorem authoritative_zero_volume_counterexample:
  "totalVolume (patch_stats empty_result [] 0 0 0) = 0
   \<and> fillPercent (patch_stats empty_result [] 0 0 0) = 0
   \<and> wastePercent (patch_stats empty_result [] 0 0 0) = 100"
  by (simp add: patch_stats_def empty_result_def)

lemma authoritative_fill_is_producers:
  "fillPercent (patch_stats (ex_result\<lparr>utilization := Val 50\<rparr>) ex_items 200 100 60) = 50
   \<and> 100 * totalFilled (patch_stats (ex_result\<lparr>utilization := Val 50\<rparr>) ex_items 200 100 60)
        / totalVolume (patch_stats (ex_result\<lparr>utilization := Val 50\<rparr>) ex_items 200 100 60) = 25"
  by (simp add: patch_stats_def ex_result_def)

section \<open>The two schemas compared\<close>

text \<open>
  C3 (as amended). A canonical tree without a zero dimension in a leaf gives the same
  boxes, in the same order, with the same origins, dimensions, ids and colours, and the
  same colour maps, whether it is written in the current schema, or in the legacy schema
  with the letters \<open>drawTree\<close> expects there (\<open>H\<close> for the cut along x, \<open>V\<close>
  along y, \<open>D\<close> along z).
\<close>

theorem schema_equivalence_up_to_letters:
  assumes "nonzero_leaves t"
  shows "drawTree (to_legacy (relabel legacy_letter t)) bd k orig st
           = drawTree (to_current t) bd k orig st
       \<and> drawTree (to_current t) bd k orig st = drawTreeNew (to_current t) bd k orig st"
proof -
  have A: "drawTree (to_current u) bd k orig st = drawTreeNew (to_current u) bd k orig st"
    for u orig st
    by (cases u) simp_all
  have B: "nonzero_leaves u \<Longrightarrow>
       drawTree (to_legacy (relabel legacy_letter u)) bd k orig st
         = drawTreeNew (to_current u) bd k orig st" for u orig st
  proof (induction u arbitrary: orig st)
    case (Leaf i l w h)
    obtain bL bW bH where b: "bd = (bL, bW, bH)" by (cases bd) auto
    from Leaf show ?case by (simp add: b)
  next
    case (Cut a p lt rt)
    obtain bL bW bH where b: "bd = (bL, bW, bH)" by (cases bd) auto
    obtain x y z where o: "orig = (x, y, z)" by (cases orig) auto
    from Cut show ?case
      by (cases a) (simp_all add: b o newOrigin_def)
  qed
  from A B [OF assms] show ?thesis by simp
qed

theorem schema_equivalence_up_to_letters_witness:
  "nonzero_leaves (two_leaves AxV)
   \<and> drawTree (to_legacy (two_leaves AxH)) (100, 100, 100) 2 (0, 0, 0) st0
     = drawTree (to_current (two_leaves AxV)) (100, 100, 100) 2 (0, 0, 0) st0
   \<and> drawTree (to_current (two_leaves AxV)) (100, 100, 100) 2 (0, 0, 0) st0
     = drawTreeNew (to_current (two_leaves AxV)) (100, 100, 100) 2 (0, 0, 0) st0"
proof -
  have h: "nonzero_leaves (two_leaves AxV)"
    by (simp add: two_leaves_def)
  have r: "relabel legacy_letter (two_leaves AxV) = two_leaves AxH"
    by (simp add: two_leaves_def)
  from schema_equivalence_up_to_letters [OF h, of "(100, 100, 100)" 2 "(0, 0, 0)" st0] h r
  show ?thesis by simp
qed

text \<open>
  The claim as written fails on the same tree written with the same letters in both
  schemas: a \<open>V\<close> cut puts the right leaf at x = 12 in the current schema and at
  y = 12 in the legacy one. It fails as well on a leaf with length 0, dropped in the
  legacy schema and drawn with the block's length in the current one
  (\<open>zero_dimension_schemas_differ\<close>).
\<close>

theorem same_letters_differ_counterexample:
  "origin_of ` set (meshes (drawTree (to_legacy (two_leaves AxV)) (100, 100, 100) 2 (0, 0, 0) st0))
     = {(0, 0, 0), (0, 12, 0)}
   \<and> origin_of ` set (meshes (drawTree (to_current (two_leaves AxV)) (100, 100, 100) 2 (0, 0, 0) st0))
     = {(0, 0, 0), (12, 0, 0)}
   \<and> set (meshes (drawTree (to_legacy (two_leaves AxV)) (100, 100, 100) 2 (0, 0, 0) st0))
     \<noteq> set (meshes (drawTree (to_current (two_leaves AxV)) (100, 100, 100) 2 (0, 0, 0) st0))"
proof -
  let ?L = "meshes (drawTree (to_legacy (two_leaves AxV)) (100, 100, 100) 2 (0, 0, 0) st0)"
  let ?C = "meshes (drawTree (to_current (two_leaves AxV)) (100, 100, 100) 2 (0, 0, 0) st0)"
  have L: "map origin_of ?L = [(0, 0, 0), (0, 12, 0)]"
    by (simp add: two_leaves_def st0_def draw_leaf_meshes origin_of_def)
  have C: "map origin_of ?C = [(0, 0, 0), (12, 0, 0)]"
    by (simp add: two_leaves_def st0_def draw_leaf_meshes newOrigin_def origin_of_def)
  have L': "origin_of ` set ?L = {(0, 0, 0), (0, 12, 0)}"
    using arg_cong [OF L, of set] by (simp only: set_map list.set)
  have C': "origin_of ` set ?C = {(0, 0, 0), (12, 0, 0)}"
    using arg_cong [OF C, of set] by (simp only: set_map list.set)
  have "(12, 0, 0) \<in> origin_of ` set ?C"
    unfolding C' by simp
  moreover have "(12, 0, 0) \<notin> origin_of ` set ?L"
    unfolding L' by simp
  ultimately have "set ?L \<noteq> set ?C"
    by metis
  with L' C' show ?thesis by blast
qed

lemma zero_dimension_schemas_differ:
  "meshes (drawTree (to_legacy (Leaf (IdNum 1) 0 5 5)) (10, 10, 10) 2 (0, 0, 0) st0) = []
   \<and> map (\<lambda>m. (pl m, pw m, ph m))
       (meshes (drawTree (to_current (Leaf (IdNum 1) 0 5 5)) (10, 10, 10) 2 (0, 0, 0) st0))
     = [(10, 5, 5)]"
  by (simp add: st0_def draw_leaf_meshes)

section \<open>Per-item volumes from the producer's counts\<close>

lemma digit_cases: "d < 10 \<Longrightarrow> d \<in> {0, 1, 2, 3, 4, 5, 6, 7, 8, 9::nat}"
  by auto

lemma digit_char_props:
  "d < 10 \<Longrightarrow> is_digit (digit_char d) \<and> digit_val (digit_char d) = d
     \<and> \<not> is_space (digit_char d) \<and> digit_char d \<noteq> CHR ''-'' \<and> digit_char d \<noteq> CHR ''+''"
  by (drule digit_cases) (auto simp: digit_char_def is_digit_def digit_val_def is_space_def)

lemma digits_of_props:
  "digits_of n \<noteq> [] \<and> list_all is_digit (digits_of n)
     \<and> foldl (\<lambda>a c. 10 * a + digit_val c) 0 (digits_of n) = n"
proof (induction n rule: digits_of.induct)
  case (1 n)
  show ?case
  proof (cases "n < 10")
    case True
    then show ?thesis
      by (simp add: digits_of.simps [of n] digit_char_props)
  next
    case False
    have m: "n mod 10 < 10" by simp
    from False "1.IH" m show ?thesis
      by (simp add: digits_of.simps [of n] digit_char_props)
  qed
qed

lemma parse_digits_of: "parse_digits (digits_of n) = Some n"
  using digits_of_props [of n] by (simp add: parse_digits_def)

lemma is_digit_not_space: "is_digit c \<Longrightarrow> \<not> is_space c \<and> c \<noteq> CHR ''-'' \<and> c \<noteq> CHR ''+''"
  by (auto simp: is_digit_def is_space_def)

lemma trim_no_space:
  "list_all (\<lambda>c. \<not> is_space c) s \<Longrightarrow> trim s = s"
proof -
  assume a: "list_all (\<lambda>c. \<not> is_space c) s"
  have d: "dropWhile is_space xs = xs" if "list_all (\<lambda>c. \<not> is_space c) xs" for xs
    using that by (cases xs) simp_all
  have "list_all (\<lambda>c. \<not> is_space c) (rev s)"
    using a by (simp add: list_all_iff)
  with a show ?thesis
    by (simp add: trim_def d)
qed

lemma digits_no_space: "list_all (\<lambda>c. \<not> is_space c) (digits_of n)"
  using digits_of_props [of n] by (auto simp: list_all_iff dest: is_digit_not_space)

lemma js_to_number_js_string: "js_to_number (js_string n) = Some n"
proof (cases "n < 0")
  case True
  have "list_all (\<lambda>c. \<not> is_space c) (CHR ''-'' # digits_of (nat (- n)))"
    using digits_no_space [of "nat (- n)"] by (simp add: is_space_def)
  then have "trim (CHR ''-'' # digits_of (nat (- n))) = CHR ''-'' # digits_of (nat (- n))"
    by (rule trim_no_space)
  with True show ?thesis
    by (simp add: js_to_number_def js_string_def parse_digits_of)
next
  case False
  obtain c cs where cs: "digits_of (nat n) = c # cs"
    using digits_of_props [of "nat n"] by (cases "digits_of (nat n)") auto
  have "is_digit c"
    using digits_of_props [of "nat n"] cs by simp
  then have c: "c \<noteq> CHR ''-''" "c \<noteq> CHR ''+''"
    by (auto dest: is_digit_not_space)
  have t: "trim (digits_of (nat n)) = digits_of (nat n)"
    by (rule trim_no_space) (rule digits_no_space)
  have "parse_digits (c # cs) = Some (nat n)"
    using parse_digits_of [of "nat n"] cs by simp
  with False c t cs show ?thesis
    by (simp add: js_to_number_def js_string_def)
qed

lemma loose_eq_js_string: "loose_eq m (js_string n) = (m = n)"
  by (auto simp: loose_eq_def js_to_number_js_string)

lemma set_entry_apply:
  "set_entry its (k, c) m k' = (if k' = k then Some (item_entry its k c) else m k')"
  by (simp add: set_entry_def)

lemma fold_set_entry_other:
  "k \<notin> fst ` set cs \<Longrightarrow> fold (set_entry its) cs m0 k = m0 k"
  by (induction cs arbitrary: m0) (auto simp: set_entry_apply)

lemma fold_set_entry_distinct:
  "distinct (map fst cs) \<Longrightarrow> (k, c) \<in> set cs \<Longrightarrow>
   fold (set_entry its) cs m0 k = Some (item_entry its k c)"
proof (induction cs arbitrary: m0)
  case Nil
  then show ?case by simp
next
  case (Cons a cs)
  show ?case
  proof (cases "(k, c) \<in> set cs")
    case True
    with Cons show ?thesis by simp
  next
    case False
    with Cons.prems have e: "a = (k, c)"
      by auto
    with Cons.prems have n: "k \<notin> fst ` set cs"
      by simp
    have "fold (set_entry its) (a # cs) m0 k = set_entry its a m0 k"
      using fold_set_entry_other [OF n, of its "set_entry its a m0"] by simp
    then show ?thesis
      by (simp add: e set_entry_apply)
  qed
qed

text \<open>
  C7. In authoritative mode, for a key of \<open>item_counts\<close> that is the string form of
  a catalog id \<open>n\<close>, the entry of the statistics holds the producer's count and, as
  volume, the catalog item's length times width times height times that count; the
  placements play no part in it. The entry is the same whether it is looked up with the
  number \<open>n\<close> or with its string form.
\<close>

theorem authoritative_item_volume:
  assumes "item_counts result = Val cs" and "distinct (map fst cs)"
      and "(js_string n, c) \<in> set cs"
      and "find (\<lambda>it. it_id it = n) its = Some it"
  shows "items (patch_stats result its bL bW bH) (key_of (IdNum n))
           = Some \<lparr>stat_id = IdStr (js_string n), stat_count = c,
                   stat_volume = it_l it * it_w it * it_h it * of_int c\<rparr>
       \<and> items (patch_stats result its bL bW bH) (key_of (IdStr (js_string n)))
           = items (patch_stats result its bL bW bH) (key_of (IdNum n))"
proof -
  have e: "item_entry its (js_string n) c
             = \<lparr>stat_id = IdStr (js_string n), stat_count = c,
                stat_volume = it_l it * it_w it * it_h it * of_int c\<rparr>"
    by (simp add: item_entry_def loose_eq_js_string assms(4))
  have "items (patch_stats result its bL bW bH) (js_string n)
          = Some (item_entry its (js_string n) c)"
    using fold_set_entry_distinct [OF assms(2,3), of its Map.empty]
    by (simp add: patch_stats_def Let_def assms(1))
  with e show ?thesis by simp
qed

theorem authoritative_item_volume_witness:
  "items (patch_stats ex_result ex_items 200 100 60) (key_of (IdNum 1))
     = Some \<lparr>stat_id = IdStr ''1'', stat_count = 2, stat_volume = 300000\<rparr>
   \<and> items (patch_stats ex_result ex_items 200 100 60) (key_of (IdStr ''1''))
     = items (patch_stats ex_result ex_items 200 100 60) (key_of (IdNum 1))"
proof -
  have j: "js_string 1 = ''1''"
    by (simp add: js_string_def digits_of.simps digit_char_def)
  from authoritative_item_volume [of ex_result "[(''1'', 2)]" 1 2 ex_items "hd ex_items" 200 100 60]
  show ?thesis
    by (simp add: j ex_result_def ex_items_def)
qed

section \<open>Colours of the 3D view and of the table\<close>

lemma getItemColorHex_same_hash:
  "getItemColorHex i idx = getItemColor (IdStr (key_of i)) idx"
  by (simp add: getItemColorHex_def)

lemma js_string_1: "js_string 1 = ''1''"
  by (simp add: js_string_def digits_of.simps digit_char_def)

lemma js_string_2: "js_string 2 = ''2''"
  by (simp add: js_string_def digits_of.simps digit_char_def)

lemma hash_string_1: "hash_string ''1'' = 49"
  by (simp add: hash_string_def hash_step_def to_int32_def)

lemma hash_string_2: "hash_string ''2'' = 50"
  by (simp add: hash_string_def hash_step_def to_int32_def)

lemma color_values:
  "color_of_hash 50 0 = HSL 0 85 55" "color_of_hash 50 (Suc 0) = HSL 30 85 55"
  "color_of_hash 49 0 = HSL (- 1) 84 54" "color_of_hash 49 (Suc 0) = HSL 29 84 54"
  by (simp_all add: color_of_hash_def hues_def Let_def)

text \<open>
  C9. The colour functions are functions of their two arguments, and the one of the
  table computes what the one of the 3D view computes from the same id and index
  (\<open>getItemColorHex_same_hash\<close>). The two views hand them different indices,
  though: the 3D view the order in which the items are first placed, the table the
  position in the catalog. With items 1 and 2 in the catalog and item 2 placed first,
  item 2 is drawn with hue 0 and listed with hue 30, item 1 is drawn with hue 29 and
  listed with hue -1.
\<close>

theorem views_disagree_on_colour:
  "map (\<lambda>m. (pid m, pcolor m)) (meshes (render_items swapped_result st0))
     = [(IdStr ''2'', HSL 0 85 55), (IdStr ''1'', HSL 29 84 54)]
   \<and> map (\<lambda>r. (row_id r, row_color r))
         (updateStatsTable two_items (patch_stats swapped_result two_items 200 100 60))
     = [(1, HSL (- 1) 84 54), (2, HSL 30 85 55)]"
proof -
  have A: "map (\<lambda>m. (pid m, pcolor m)) (meshes (render_items swapped_result st0))
     = [(IdStr ''2'', HSL 0 85 55), (IdStr ''1'', HSL 29 84 54)]"
    by (simp add: render_items_def swapped_result_def st0_def render_placed_def placed_color_def
        addBox_def map_set_def Let_def js_string_1 js_string_2 hash_string_1 hash_string_2
        color_values)
  have B: "map (\<lambda>r. (row_id r, row_color r))
         (updateStatsTable two_items (patch_stats swapped_result two_items 200 100 60))
     = [(1, HSL (- 1) 84 54), (2, HSL 30 85 55)]"
    by (simp add: updateStatsTable_def two_items_def enumerate_eq_zip getItemColorHex_def
        js_string_1 js_string_2 hash_string_1 hash_string_2 color_values upt_rec)
  from A B show ?thesis by simp
qed

section \<open>The cutting program report\<close>

lemma render_row_ok:
  "step_ok s \<Longrightarrow>
   \<exists>r. render_row index s = Inr r \<and> r_seq r = st_seq s \<and> r_operation r = st_operation s
        \<and> r_description r = step_indent s @ st_description s"
  by (auto simp: step_ok_def render_row_def step_indent_def Let_def split: jsfield.splits)

lemma render_row_not_ok:
  "\<not> step_ok s \<Longrightarrow> \<exists>e. render_row index s = Inl e"
  by (auto simp: step_ok_def render_row_def Let_def split: jsfield.splits)

lemma render_rows_ok:
  "list_all step_ok steps \<Longrightarrow>
   \<exists>rs. render_rows index steps = Inr rs
        \<and> map r_seq rs = map st_seq steps
        \<and> map r_operation rs = map st_operation steps
        \<and> map r_description rs = map (\<lambda>s. step_indent s @ st_description s) steps"
proof (induction steps arbitrary: index)
  case Nil
  then show ?case by simp
next
  case (Cons s ss)
  from Cons.prems have ok: "step_ok s" and oks: "list_all step_ok ss"
    by simp_all
  from render_row_ok [OF ok, of index] obtain r where
    r: "render_row index s = Inr r" "r_seq r = st_seq s" "r_operation r = st_operation s"
       "r_description r = step_indent s @ st_description s"
    by blast
  from Cons.IH [OF oks, of "Suc index"] obtain rs where
    rs: "render_rows (Suc index) ss = Inr rs" "map r_seq rs = map st_seq ss"
        "map r_operation rs = map st_operation ss"
        "map r_description rs = map (\<lambda>s. step_indent s @ st_description s) ss"
    by blast
  show ?case
    by (intro exI [of _ "r # rs"]) (simp add: r rs)
qed

lemma render_rows_not_ok:
  "\<not> list_all step_ok steps \<Longrightarrow> \<exists>e. render_rows index steps = Inl e"
proof (induction steps arbitrary: index)
  case Nil
  then show ?case by simp
next
  case (Cons s ss)
  show ?case
  proof (cases "step_ok s")
    case False
    from render_row_not_ok [OF False, of index] show ?thesis by auto
  next
    case True
    with Cons.prems have "\<not> list_all step_ok ss" by simp
    from Cons.IH [OF this, of "Suc index"] obtain e where "render_rows (Suc index) ss = Inl e"
      by blast
    then show ?thesis
      by (cases "render_row index s") simp_all
  qed
qed

text \<open>
  C8 (as amended). For a cutting program whose sequence is present and whose steps each
  carry a node with a depth that is missing or not negative, the report has one row per
  step, in the order of the sequence; the row shows the step's \<open>seq\<close> and
  \<open>operation\<close> as they are and its \<open>description\<close> after the indentation; a
  non-empty \<open>conflicts\<close> list is shown as its descriptions, in order and unchanged,
  an empty or missing one as the banner that no conflict was found. When a step of the
  sequence has no node or a negative depth the function throws and there is no report;
  when the sequence is missing the result is the empty string, with neither steps nor
  conflicts.
\<close>

theorem formatter_passes_through:
  "(sequence t = Val steps \<and> list_all step_ok steps \<longrightarrow>
      (\<exists>r. buildCuttingTreeHTML (Val t) = Inr (Some r)
          \<and> map r_seq (rp_rows r) = map st_seq steps
          \<and> map r_operation (rp_rows r) = map st_operation steps
          \<and> map r_description (rp_rows r) = map (\<lambda>s. step_indent s @ st_description s) steps
          \<and> rp_banner r = (case conflicts t of
                             Val (c # cs) \<Rightarrow> Conflicts (length (c # cs)) (map cf_description (c # cs))
                           | _ \<Rightarrow> NoConflicts)))
   \<and> (sequence t = Val steps \<and> \<not> list_all step_ok steps \<longrightarrow>
        (\<exists>e. buildCuttingTreeHTML (Val t) = Inl e))
   \<and> (\<not> truthy_obj (sequence t) \<longrightarrow> buildCuttingTreeHTML (Val t) = Inr None)"
proof -
  have banner: "conflict_banner (conflicts t)
      = (case conflicts t of
           Val (c # cs) \<Rightarrow> Conflicts (length (c # cs)) (map cf_description (c # cs))
         | _ \<Rightarrow> NoConflicts)"
    by (simp add: conflict_banner_def split: jsfield.splits list.splits)
  have 1: "\<exists>r. buildCuttingTreeHTML (Val t) = Inr (Some r)
          \<and> map r_seq (rp_rows r) = map st_seq steps
          \<and> map r_operation (rp_rows r) = map st_operation steps
          \<and> map r_description (rp_rows r) = map (\<lambda>s. step_indent s @ st_description s) steps
          \<and> rp_banner r = (case conflicts t of
                             Val (c # cs) \<Rightarrow> Conflicts (length (c # cs)) (map cf_description (c # cs))
                           | _ \<Rightarrow> NoConflicts)"
    if "sequence t = Val steps" and "list_all step_ok steps"
  proof -
    from render_rows_ok [OF that(2), of 0] obtain rs where
      rs: "render_rows 0 steps = Inr rs" "map r_seq rs = map st_seq steps"
          "map r_operation rs = map st_operation steps"
          "map r_description rs = map (\<lambda>s. step_indent s @ st_description s) steps"
      by blast
    show ?thesis
      by (simp add: buildCuttingTreeHTML_def that(1) rs banner)
  qed
  have 2: "\<exists>e. buildCuttingTreeHTML (Val t) = Inl e"
    if "sequence t = Val steps" and "\<not> list_all step_ok steps"
  proof -
    from render_rows_not_ok [OF that(2), of 0] obtain e where "render_rows 0 steps = Inl e"
      by blast
    then show ?thesis
      by (simp add: buildCuttingTreeHTML_def that(1))
  qed
  have 3: "buildCuttingTreeHTML (Val t) = Inr None" if "\<not> truthy_obj (sequence t)"
    using that by (cases "sequence t") (simp_all add: buildCuttingTreeHTML_def)
  from 1 2 3 show ?thesis by blast
qed


theorem formatter_passes_through_witness:
  "(\<exists>r. buildCuttingTreeHTML (Val ex_program) = Inr (Some r)
       \<and> map r_seq (rp_rows r) = [3, 1, 2]
       \<and> map r_operation (rp_rows r) = [''START'', ''CUT'', ''ITEM'']
       \<and> map r_description (rp_rows r) = [''block'', ''  V at 100'', ''    item 1'']
       \<and> rp_banner r = Conflicts 1 [''cut 1 crosses item 2''])
   \<and> (\<exists>r. buildCuttingTreeHTML (Val ex_program_quiet) = Inr (Some r) \<and> rp_banner r = NoConflicts)
   \<and> (\<exists>e. buildCuttingTreeHTML (Val ex_program_no_node) = Inl e)
   \<and> buildCuttingTreeHTML (Val ex_program_no_sequence) = Inr None"
proof -
  have ok: "list_all step_ok ex_steps"
    by (simp add: ex_steps_def step_ok_def)
  have bad: "\<not> list_all step_ok ex_steps_no_node"
    by (simp add: ex_steps_no_node_def step_ok_def)
  have sq: "sequence ex_program = Val ex_steps" "sequence ex_program_quiet = Val ex_steps"
       "sequence ex_program_no_node = Val ex_steps_no_node"
       "\<not> truthy_obj (sequence ex_program_no_sequence)"
    by (simp_all add: ex_program_def ex_program_quiet_def ex_program_no_node_def
        ex_program_no_sequence_def)
  have cf: "conflicts ex_program = Val [\<lparr>cf_description = ''cut 1 crosses item 2''\<rparr>]"
       "conflicts ex_program_quiet = Undefined"
    by (simp_all add: ex_program_def ex_program_quiet_def)
  have v: "map st_seq ex_steps = [3, 1, 2]"
       "map st_operation ex_steps = [''START'', ''CUT'', ''ITEM'']"
       "map (\<lambda>s. step_indent s @ st_description s) ex_steps
          = [''block'', ''  V at 100'', ''    item 1'']"
    by (simp_all add: ex_steps_def step_indent_def numeral_2_eq_2)
  from formatter_passes_through [of ex_program ex_steps] ok sq(1)
  have 1: "\<exists>r. buildCuttingTreeHTML (Val ex_program) = Inr (Some r)
       \<and> map r_seq (rp_rows r) = [3, 1, 2]
       \<and> map r_operation (rp_rows r) = [''START'', ''CUT'', ''ITEM'']
       \<and> map r_description (rp_rows r) = [''block'', ''  V at 100'', ''    item 1'']
       \<and> rp_banner r = Conflicts 1 [''cut 1 crosses item 2'']"
    by (simp add: cf v)
  from formatter_passes_through [of ex_program_quiet ex_steps] ok sq(2)
  have 2: "\<exists>r. buildCuttingTreeHTML (Val ex_program_quiet) = Inr (Some r) \<and> rp_banner r = NoConflicts"
    by (auto simp add: cf)
  from formatter_passes_through [of ex_program_no_node ex_steps_no_node] bad sq(3)
  have 3: "\<exists>e. buildCuttingTreeHTML (Val ex_program_no_node) = Inl e"
    by blast
  from formatter_passes_through [of ex_program_no_sequence ex_steps] sq(4)
  have 4: "buildCuttingTreeHTML (Val ex_program_no_sequence) = Inr None"
    by blast
  from 1 2 3 4 show ?thesis by blast
qed

text \<open>
  The claim as written fails on a program that has a conflict and no sequence: the
  guard at the head of the function returns the empty string and the conflict is not
  shown. It fails as well on a step without node, where the function throws
  (\<open>step_without_node_throws\<close>).
\<close>

theorem no_sequence_conflicts_unreported_counterexample:
  "conflicts ex_program_no_sequence = Val [\<lparr>cf_description = ''cut 1 crosses item 2''\<rparr>]
   \<and> buildCuttingTreeHTML (Val ex_program_no_sequence) = Inr None"
  by (simp add: ex_program_no_sequence_def ex_program_def buildCuttingTreeHTML_def)

lemma step_without_node_throws:
  "buildCuttingTreeHTML (Val ex_program_no_node) = Inl TypeError"
  by (simp add: buildCuttingTreeHTML_def ex_program_no_node_def ex_program_def
      ex_steps_no_node_def render_row_def)

lemma negative_depth_throws:
  "render_row 0 \<lparr>st_seq = 1, st_operation = ''CUT'', st_description = ''x'',
                  st_node = Val \<lparr>sn_depth = Val (- 1), sn_volume = Undefined\<rparr>\<rparr>
     = Inl RangeError"
  by (simp add: render_row_def)

lemma ex_program_volumes:
  "map_sum id (map_option (map r_volume \<circ> rp_rows)) (buildCuttingTreeHTML (Val ex_program))
     = Inr (Some [Fixed ''1200000'', Dash, Fixed ''150000''])"
  by (simp add: buildCuttingTreeHTML_def ex_program_def ex_steps_def render_row_def toFixed0_def
      digits_of.simps digit_char_def Let_def)

end
